theory Spec2Isabelle
  imports Complex_Main "HOL-Library.Multiset"
begin

section \<open>Numbers\<close>

text \<open>
  The collage editor computes with JavaScript numbers. The model computes with exact
  reals on the finite numbers and makes explicit where a computation leaves them: a
  division by zero gives \<^verbatim>\<open>NaN\<close> or an infinity, which the model lumps together as
  \<open>NonFinite\<close>. Rounding errors of the double format are not modelled.
\<close>

datatype number = Finite real | NonFinite

definition divide_js :: "real \<Rightarrow> real \<Rightarrow> number" where
  "divide_js a b = (if b = 0 then NonFinite else Finite (a / b))"

text \<open>
  \<^verbatim>\<open>Math.round\<close> returns the integer closest to its argument, the larger one of two
  equally close integers; an argument that is not finite is returned as it is.
\<close>

definition Math_round :: "number \<Rightarrow> number" where
  "Math_round v =
     (case v of Finite r \<Rightarrow> Finite (of_int \<lfloor>r + 1 / 2\<rfloor>) | NonFinite \<Rightarrow> NonFinite)"

section \<open>Output size (PhotoCollage.tsx, lines 35-47; PuzzleBoard.tsx, lines 409-423)\<close>

record OutputSize =
  width :: number
  height :: number

text \<open>
  \<^verbatim>\<open>const [w, h] = aspectRatio.split(':').map(Number)\<close>: the model starts from the two
  numbers \<open>w\<close> and \<open>h\<close> read from the aspect-ratio string, taken to be finite.
\<close>

definition calculateOutputSize :: "real \<Rightarrow> real \<Rightarrow> real \<Rightarrow> OutputSize" where
  "calculateOutputSize w h resolution =
     (if w \<ge> h
      then \<lparr>width = Finite resolution,
            height = Math_round (divide_js (resolution * h) w)\<rparr>
      else \<lparr>width = Math_round (divide_js (resolution * w) h),
            height = Finite resolution\<rparr>)"

text \<open>The size selector's copy of the same function.\<close>

definition calculateSize :: "real \<Rightarrow> real \<Rightarrow> real \<Rightarrow> OutputSize" where
  "calculateSize w h resolution =
     (if w \<ge> h
      then \<lparr>width = Finite resolution,
            height = Math_round (divide_js (resolution * h) w)\<rparr>
      else \<lparr>width = Math_round (divide_js (resolution * w) h),
            height = Finite resolution\<rparr>)"

text \<open>
  The specification's \<open>computeOutputSize\<close>, written from its words: it fails with a
  \<open>ConfigurationError\<close> on a non-positive aspect component or resolution, and otherwise
  anchors the larger side at the resolution and rounds the other side.
\<close>

datatype error = ConfigurationError

definition computeOutputSize_spec :: "real \<Rightarrow> real \<Rightarrow> real \<Rightarrow> error + OutputSize" where
  "computeOutputSize_spec aspectW aspectH resolution =
     (if aspectW \<le> 0 \<or> aspectH \<le> 0 \<or> resolution \<le> 0 then Inl ConfigurationError
      else if aspectW \<ge> aspectH
      then Inr \<lparr>width = Finite resolution,
                height = Finite (of_int (round (resolution * aspectH / aspectW)))\<rparr>
      else Inr \<lparr>width = Finite (of_int (round (resolution * aspectW / aspectH))),
                height = Finite resolution\<rparr>)"

section \<open>Templates and the cell grid (PhotoCollage.tsx, lines 263-290 and 419-433)\<close>

text \<open>
  Of a template the engine reads the grid and the style name; \<open>style\<close> is an optional
  field. Rows and columns are loop bounds and are modelled as natural numbers.
\<close>

record CollageTemplate =
  rows :: nat
  cols :: nat
  style :: "string option"

text \<open>
  \<open>W\<close> and \<open>H\<close> below are \<^verbatim>\<open>outputSize.width\<close> and \<^verbatim>\<open>outputSize.height\<close>, finite. The
  constants mirror the local constants that \<^verbatim>\<open>drawCollage\<close> and
  \<^verbatim>\<open>getImageIndexAtPosition\<close> both compute.
\<close>

definition padding :: "real \<Rightarrow> real \<Rightarrow> real" where
  "padding W H = min W H * 0.02"

definition gap :: "CollageTemplate \<Rightarrow> real \<Rightarrow> real" where
  "gap t p = (if style t = Some ''polaroid'' then p * 2 else p * 0.5)"

definition availableWidth :: "real \<Rightarrow> real \<Rightarrow> CollageTemplate \<Rightarrow> real" where
  "availableWidth W H t =
     W - (padding W H * 2) - (gap t (padding W H) * (real (cols t) - 1))"

definition availableHeight :: "real \<Rightarrow> real \<Rightarrow> CollageTemplate \<Rightarrow> real" where
  "availableHeight W H t =
     H - (padding W H * 2) - (gap t (padding W H) * (real (rows t) - 1))"

text \<open>
  The two quotients are only read inside the loops over the cells, where \<open>cols t\<close> and
  \<open>rows t\<close> are at least one. They are the exact quotients; the source's binary64
  quotients differ from them by rounding errors, so that where the exact value is 0 the
  computed one can be negative, and a far edge that is exactly at the padding can be computed
  just beyond it. The properties below are stated with room for that.
\<close>

definition cellWidth :: "real \<Rightarrow> real \<Rightarrow> CollageTemplate \<Rightarrow> real" where
  "cellWidth W H t = availableWidth W H t / real (cols t)"

definition cellHeight :: "real \<Rightarrow> real \<Rightarrow> CollageTemplate \<Rightarrow> real" where
  "cellHeight W H t = availableHeight W H t / real (rows t)"

record rect =
  rect_x :: real
  rect_y :: real
  rect_w :: real
  rect_h :: real

definition cellRect :: "real \<Rightarrow> real \<Rightarrow> CollageTemplate \<Rightarrow> nat \<Rightarrow> nat \<Rightarrow> rect" where
  "cellRect W H t row col =
     \<lparr>rect_x = padding W H + real col * (cellWidth W H t + gap t (padding W H)),
      rect_y = padding W H + real row * (cellHeight W H t + gap t (padding W H)),
      rect_w = cellWidth W H t,
      rect_h = cellHeight W H t\<rparr>"

text \<open>The nested loops \<^verbatim>\<open>for row ... for col ...\<close> visit the cells in this order.\<close>

definition cells :: "CollageTemplate \<Rightarrow> (nat \<times> nat) list" where
  "cells t = List.product [0..<rows t] [0..<cols t]"

definition cellRects :: "real \<Rightarrow> real \<Rightarrow> CollageTemplate \<Rightarrow> rect list" where
  "cellRects W H t = map (\<lambda>(row, col). cellRect W H t row col) (cells t)"

text \<open>
  The containment test of the hit test (lines 435-436), which also fixes the points a
  rectangle covers, and the area of the canvas inside the padding.
\<close>

definition inCell :: "real \<Rightarrow> real \<Rightarrow> rect \<Rightarrow> bool" where
  "inCell canvasX canvasY r \<longleftrightarrow>
     canvasX \<ge> rect_x r \<and> canvasX \<le> rect_x r + rect_w r \<and>
     canvasY \<ge> rect_y r \<and> canvasY \<le> rect_y r + rect_h r"

definition insidePadding :: "real \<Rightarrow> real \<Rightarrow> rect \<Rightarrow> bool" where
  "insidePadding W H r \<longleftrightarrow>
     padding W H \<le> rect_x r \<and> rect_x r \<le> W - padding W H \<and>
     padding W H \<le> rect_x r + rect_w r \<and> rect_x r + rect_w r \<le> W - padding W H \<and>
     padding W H \<le> rect_y r \<and> rect_y r \<le> H - padding W H \<and>
     padding W H \<le> rect_y r + rect_h r \<and> rect_y r + rect_h r \<le> H - padding W H"

section \<open>The cell grid in double precision\<close>

text \<open>
  The source computes the grid in binary64 numbers. \<open>double v\<close> is the binary64 number
  nearest to \<open>v\<close>, the one with the even significand of two equally near; overflow and
  subnormal numbers are left out, neither occurs in the grids considered here. The exponent
  is given by a logarithm; the lemmas \<open>double_up\<close> and \<open>double_down\<close> compute \<open>double\<close> at a
  number whose binade is known. The definitions below repeat the horizontal part of the grid
  with every operation of the source rounded.
\<close>

definition roundHalfEven :: "real \<Rightarrow> int" where
  "roundHalfEven q =
     (let f = \<lfloor>q\<rfloor>
      in if q - of_int f < 1 / 2 then f
         else if 1 / 2 < q - of_int f then f + 1
         else if even f then f else f + 1)"

definition double :: "real \<Rightarrow> real" where
  "double v =
     (if v = 0 then 0
      else (let e = \<lfloor>log 2 \<bar>v\<bar>\<rfloor>
            in of_int (roundHalfEven (v / 2 powr (of_int e - 52))) * 2 powr (of_int e - 52)))"

definition padding64 :: "real \<Rightarrow> real \<Rightarrow> real" where
  "padding64 W H = double (min W H * double 0.02)"

definition gap64 :: "CollageTemplate \<Rightarrow> real \<Rightarrow> real" where
  "gap64 t p = (if style t = Some ''polaroid'' then double (p * 2) else double (p * double 0.5))"

definition availableWidth64 :: "real \<Rightarrow> real \<Rightarrow> CollageTemplate \<Rightarrow> real" where
  "availableWidth64 W H t =
     double (double (W - double (padding64 W H * 2))
             - double (gap64 t (padding64 W H) * (real (cols t) - 1)))"

definition cellWidth64 :: "real \<Rightarrow> real \<Rightarrow> CollageTemplate \<Rightarrow> real" where
  "cellWidth64 W H t = double (availableWidth64 W H t / real (cols t))"

definition cellX64 :: "real \<Rightarrow> real \<Rightarrow> CollageTemplate \<Rightarrow> nat \<Rightarrow> real" where
  "cellX64 W H t col =
     double (padding64 W H
             + double (real col * double (cellWidth64 W H t + gap64 t (padding64 W H))))"

section \<open>Per-image transforms\<close>

text \<open>
  The fields \<^verbatim>\<open>x\<close> and \<^verbatim>\<open>y\<close> of the source are called \<open>tx\<close> and \<open>ty\<close> here. A
  \<^verbatim>\<open>Partial<ImageTransform>\<close> names the fields it sets.
\<close>

record ImageTransform =
  tx :: real
  ty :: real
  scale :: real

record PartialTransform =
  set_x :: "real option"
  set_y :: "real option"
  set_scale :: "real option"

definition defaultTransform :: ImageTransform where
  "defaultTransform = \<lparr>tx = 0, ty = 0, scale = 1\<rparr>"

text \<open>The object spread \<^verbatim>\<open>{ ...t, ...transform }\<close>.\<close>

definition spread :: "ImageTransform \<Rightarrow> PartialTransform \<Rightarrow> ImageTransform" where
  "spread t p =
     \<lparr>tx = (case set_x p of Some v \<Rightarrow> v | None \<Rightarrow> tx t),
      ty = (case set_y p of Some v \<Rightarrow> v | None \<Rightarrow> ty t),
      scale = (case set_scale p of Some v \<Rightarrow> v | None \<Rightarrow> scale t)\<rparr>"

text \<open>\<^verbatim>\<open>prev.map((t, i) => i === index ? { ...t, ...transform } : t)\<close> (lines 387-391).\<close>

definition updateImageTransform ::
  "nat \<Rightarrow> PartialTransform \<Rightarrow> ImageTransform list \<Rightarrow> ImageTransform list" where
  "updateImageTransform index transform prev =
     map (\<lambda>(t, i). if i = index then spread t transform else t)
       (zip prev [0..<length prev])"

definition resetImageTransform :: "nat \<Rightarrow> ImageTransform list \<Rightarrow> ImageTransform list" where
  "resetImageTransform index prev =
     updateImageTransform index \<lparr>set_x = Some 0, set_y = Some 0, set_scale = Some 1\<rparr> prev"

text \<open>
  The reconciliation of the transform array with the images (lines 76-86):
  \<^verbatim>\<open>images.map((_, index) => prevTransforms[index] ? prevTransforms[index] : default)\<close>.
  Every stored transform is an object, so \<^verbatim>\<open>prevTransforms[index]\<close> is falsy exactly when the
  index is beyond the end of the array.
\<close>

definition reconcileTransforms :: "nat \<Rightarrow> ImageTransform list \<Rightarrow> ImageTransform list" where
  "reconcileTransforms imagesLength prevTransforms =
     map (\<lambda>index. if index < length prevTransforms then prevTransforms ! index
                   else \<lparr>tx = 0, ty = 0, scale = 1\<rparr>)
       [0..<imagesLength]"

section \<open>The component: properties and state (PhotoCollage.tsx, lines 66-72)\<close>

record DragState =
  isDragging :: bool
  imageIndex :: nat
  startX :: real
  startY :: real
  initialTransform :: ImageTransform

record DOMRect =
  rect_left :: real
  rect_top :: real

record canvasElement =
  hasContext :: bool
  offsetWidth :: nat
  offsetHeight :: nat

text \<open>
  \<open>outputW\<close> and \<open>outputH\<close> stand for the result of \<^verbatim>\<open>calculateOutputSize(aspectRatio,
  resolution)\<close>, which the functions below recompute from the properties; the two
  dimensions are taken to be finite.
\<close>

record component =
  images :: "string list"
  template :: CollageTemplate
  outputW :: real
  outputH :: real
  filterId :: string
  canvas :: "canvasElement option"
  canvasRect :: "DOMRect option"
  dragIndex :: "nat option"
  dropIndex :: "nat option"
  imageTransforms :: "ImageTransform list"
  selectedImageIndex :: "nat option"
  dragState :: "DragState option"

text \<open>
  The effect on \<^verbatim>\<open>[images.length, selectedImageIndex]\<close> (lines 75-92): it reconciles the
  transforms and drops a selection that is out of range.
\<close>

definition imagesLengthEffect :: "component \<Rightarrow> component" where
  "imagesLengthEffect s =
     s\<lparr>imageTransforms := reconcileTransforms (length (images s)) (imageTransforms s),
       selectedImageIndex :=
         (case selectedImageIndex s of
            None \<Rightarrow> None
          | Some k \<Rightarrow> if k \<ge> length (images s) then None else Some k)\<rparr>"

section \<open>Reordering by thumbnail drag (lines 360-382)\<close>

text \<open>
  \<^verbatim>\<open>const [dragged] = xs.splice(dragIndex, 1)\<close> removes the element at \<open>dragIndex\<close> and
  returns it; beyond the end of the array nothing is removed and \<open>dragged\<close> is
  \<^verbatim>\<open>undefined\<close>. \<^verbatim>\<open>xs.splice(dropIndex, 0, dragged)\<close> inserts at \<open>dropIndex\<close>, or at the end
  when \<open>dropIndex\<close> is beyond it.
\<close>

definition spliceOut :: "nat \<Rightarrow> 'a list \<Rightarrow> 'a option \<times> 'a list" where
  "spliceOut i xs =
     (if i < length xs then (Some (xs ! i), take i xs @ drop (Suc i) xs) else (None, xs))"

definition spliceIn :: "nat \<Rightarrow> 'a \<Rightarrow> 'a list \<Rightarrow> 'a list" where
  "spliceIn j v xs = take j xs @ v # drop j xs"

text \<open>
  The result is \<open>None\<close> where the source would insert \<^verbatim>\<open>undefined\<close> into the array, which
  the typed arrays of the model do not hold.
\<close>

definition moveItem :: "nat \<Rightarrow> nat \<Rightarrow> 'a list \<Rightarrow> 'a list option" where
  "moveItem i j xs =
     (case spliceOut i xs of
        (Some dragged, rest) \<Rightarrow> Some (spliceIn j dragged rest)
      | (None, rest) \<Rightarrow> None)"

definition handleDragStart :: "nat \<Rightarrow> component \<Rightarrow> component" where
  "handleDragStart index s = s\<lparr>dragIndex := Some index\<rparr>"

definition handleDrop :: "nat \<Rightarrow> component \<Rightarrow> component" where
  "handleDrop index s = s\<lparr>dropIndex := Some index\<rparr>"

definition handleDragEnd :: "component \<Rightarrow> component option" where
  "handleDragEnd s =
     (case (dragIndex s, dropIndex s) of
        (Some i, Some j) \<Rightarrow>
          if i \<noteq> j
          then (case (moveItem i j (images s), moveItem i j (imageTransforms s)) of
                  (Some newImages, Some newTransforms) \<Rightarrow>
                    Some (s\<lparr>images := newImages, imageTransforms := newTransforms,
                            dragIndex := None, dropIndex := None\<rparr>)
                | _ \<Rightarrow> None)
          else Some (s\<lparr>dragIndex := None, dropIndex := None\<rparr>)
      | _ \<Rightarrow> Some (s\<lparr>dragIndex := None, dropIndex := None\<rparr>))"

section \<open>Hit test (lines 404-443)\<close>

text \<open>
  \<^verbatim>\<open>x / scaleX\<close> with \<^verbatim>\<open>scaleX = canvas.offsetWidth / outputSize.width\<close>. A canvas that is
  displayed with extent 0 gives the scale 0 (or \<^verbatim>\<open>NaN\<close>) and a coordinate that is not
  finite: \<open>None\<close>, which fails every comparison of the containment test. An output extent
  of 0 on a displayed canvas gives an infinite scale and the coordinate 0.
\<close>

definition canvasCoord :: "real \<Rightarrow> nat \<Rightarrow> real \<Rightarrow> real option" where
  "canvasCoord v offset extent =
     (if offset = 0 then None
      else if extent = 0 then Some 0
      else Some (v / (real offset / extent)))"

text \<open>
  The loops return the first cell, in row-major order, that holds an image and contains the
  point, and \<open>-1\<close> when there is none.
\<close>

definition getImageIndexAtPosition :: "component \<Rightarrow> real \<Rightarrow> real \<Rightarrow> int" where
  "getImageIndexAtPosition s x y =
     (case canvasRect s of
        None \<Rightarrow> - 1
      | Some _ \<Rightarrow>
        (case canvas s of
           None \<Rightarrow> - 1
         | Some c \<Rightarrow>
           (case (canvasCoord x (offsetWidth c) (outputW s),
                  canvasCoord y (offsetHeight c) (outputH s)) of
              (Some canvasX, Some canvasY) \<Rightarrow>
                (case find
                        (\<lambda>(row, col).
                           \<not> row * cols (template s) + col \<ge> length (images s) \<and>
                           inCell canvasX canvasY
                             (cellRect (outputW s) (outputH s) (template s) row col))
                        (cells (template s)) of
                   Some (row, col) \<Rightarrow> int (row * cols (template s) + col)
                 | None \<Rightarrow> - 1)
            | _ \<Rightarrow> - 1)))"

section \<open>Dragging an image on the canvas (lines 448-497)\<close>

definition handleCanvasDragStart :: "real \<Rightarrow> real \<Rightarrow> component \<Rightarrow> component" where
  "handleCanvasDragStart clientX clientY s =
     (case canvasRect s of
        None \<Rightarrow> s
      | Some r \<Rightarrow>
        (let x = clientX - rect_left r;
             y = clientY - rect_top r;
             index = getImageIndexAtPosition s x y
         in if index \<ge> 0 \<and> nat index < length (imageTransforms s)
            then s\<lparr>dragState :=
                     Some \<lparr>isDragging = True, imageIndex = nat index,
                           startX = clientX, startY = clientY,
                           initialTransform = imageTransforms s ! nat index\<rparr>,
                   selectedImageIndex := Some (nat index)\<rparr>
            else s))"

definition handleCanvasDragMove :: "real \<Rightarrow> real \<Rightarrow> component \<Rightarrow> component" where
  "handleCanvasDragMove clientX clientY s =
     (case dragState s of
        None \<Rightarrow> s
      | Some d \<Rightarrow>
        if \<not> isDragging d then s
        else
          (let deltaX = clientX - startX d;
               deltaY = clientY - startY d;
               sensitivity = 0.5;
               newX = tx (initialTransform d) + deltaX * sensitivity;
               newY = ty (initialTransform d) + deltaY * sensitivity;
               maxOffset = 100;
               clampedX = max (- maxOffset) (min maxOffset newX);
               clampedY = max (- maxOffset) (min maxOffset newY)
           in s\<lparr>imageTransforms :=
                   updateImageTransform (imageIndex d)
                     \<lparr>set_x = Some clampedX, set_y = Some clampedY, set_scale = None\<rparr>
                     (imageTransforms s)\<rparr>))"

definition handleCanvasDragEnd :: "component \<Rightarrow> component" where
  "handleCanvasDragEnd s = s\<lparr>dragState := None\<rparr>"

section \<open>The adjustment panel (lines 642-705)\<close>

text \<open>
  The panel is rendered only while an image is selected and has a transform. Each range
  input hands the number it delivers to \<^verbatim>\<open>updateImageTransform\<close>. The inputs declare the
  ranges \<open>-50 .. 50\<close> for the two position sliders and \<open>0.5 .. 2\<close> for the scale slider.
\<close>

definition panelEdit :: "(nat \<Rightarrow> ImageTransform list \<Rightarrow> ImageTransform list) \<Rightarrow> component \<Rightarrow> component" where
  "panelEdit edit s =
     (case selectedImageIndex s of
        None \<Rightarrow> s
      | Some i \<Rightarrow>
        if i < length (imageTransforms s)
        then s\<lparr>imageTransforms := edit i (imageTransforms s)\<rparr>
        else s)"

definition xSlider_onChange :: "real \<Rightarrow> component \<Rightarrow> component" where
  "xSlider_onChange v =
     panelEdit (\<lambda>i. updateImageTransform i \<lparr>set_x = Some v, set_y = None, set_scale = None\<rparr>)"

definition ySlider_onChange :: "real \<Rightarrow> component \<Rightarrow> component" where
  "ySlider_onChange v =
     panelEdit (\<lambda>i. updateImageTransform i \<lparr>set_x = None, set_y = Some v, set_scale = None\<rparr>)"

definition scaleSlider_onChange :: "real \<Rightarrow> component \<Rightarrow> component" where
  "scaleSlider_onChange v =
     panelEdit (\<lambda>i. updateImageTransform i \<lparr>set_x = None, set_y = None, set_scale = Some v\<rparr>)"

definition resetButton_onClick :: "component \<Rightarrow> component" where
  "resetButton_onClick = panelEdit resetImageTransform"

definition positionSliderMin :: real where "positionSliderMin = - 50"
definition positionSliderMax :: real where "positionSliderMax = 50"
definition scaleSliderMin :: real where "scaleSliderMin = 0.5"
definition scaleSliderMax :: real where "scaleSliderMax = 2"

text \<open>
  The three range inputs (lines 661-697) are the only source of slider values. A range input
  with the attributes \<open>min\<close>, \<open>max\<close> and \<open>step\<close> holds, after an attempt to set it to \<open>v\<close>, the
  value that the sanitization of the HTML standard gives: \<open>v\<close> moved into \<open>min .. max\<close> and
  then to the nearest multiple of \<open>step\<close> above \<open>min\<close>, the upper one of two equally near,
  staying within \<open>max\<close>. The position sliders declare no step, which makes it 1; the scale
  slider declares the step 0.1.
\<close>

definition rangeInput :: "real \<Rightarrow> real \<Rightarrow> real \<Rightarrow> real \<Rightarrow> real" where
  "rangeInput lo hi step v =
     (let c = max lo (min hi v);
          snapped = lo + step * of_int \<lfloor>(c - lo) / step + 1 / 2\<rfloor>
      in if hi < snapped then snapped - step else snapped)"

definition positionSliderStep :: real where "positionSliderStep = 1"
definition scaleSliderStep :: real where "scaleSliderStep = 0.1"

text \<open>An attempt to set a slider to \<open>v\<close>, followed by the change event of the input.\<close>

definition xSlider_input :: "real \<Rightarrow> component \<Rightarrow> component" where
  "xSlider_input v =
     xSlider_onChange (rangeInput positionSliderMin positionSliderMax positionSliderStep v)"

definition ySlider_input :: "real \<Rightarrow> component \<Rightarrow> component" where
  "ySlider_input v =
     ySlider_onChange (rangeInput positionSliderMin positionSliderMax positionSliderStep v)"

definition scaleSlider_input :: "real \<Rightarrow> component \<Rightarrow> component" where
  "scaleSlider_input v =
     scaleSlider_onChange (rangeInput scaleSliderMin scaleSliderMax scaleSliderStep v)"

section \<open>Rendering (lines 242-355)\<close>

text \<open>
  A render is recorded as the list of its drawing steps. \<open>StyledImage\<close> is a call of
  \<^verbatim>\<open>drawWithStyle\<close> with the image, the rectangle, the style, the filter and the transform;
  \<open>Placeholder\<close> carries the slot number of its label; \<open>Watermark\<close> carries the anchor of the
  fixed text.
\<close>

datatype 'img draw =
    Background
  | StyledImage 'img rect string string ImageTransform
  | SelectionBorder rect
  | Placeholder nat rect
  | Watermark real real

text \<open>The random offset of the polaroid style (lines 293-296), given the two random numbers.\<close>

definition jitter :: "real \<Rightarrow> real \<times> real \<Rightarrow> rect \<Rightarrow> rect" where
  "jitter p rnd r =
     r\<lparr>rect_x := rect_x r + (fst rnd - 0.5) * p, rect_y := rect_y r + (snd rnd - 0.5) * p\<rparr>"

text \<open>\<^verbatim>\<open>template.style || 'grid'\<close>.\<close>

definition styleOrGrid :: "CollageTemplate \<Rightarrow> string" where
  "styleOrGrid t = (case style t of None \<Rightarrow> ''grid'' | Some st \<Rightarrow> if st = [] then ''grid'' else st)"

definition drawCell ::
  "(nat \<Rightarrow> real \<times> real) \<Rightarrow> component \<Rightarrow> 'img list \<Rightarrow> nat \<times> nat \<Rightarrow> 'img draw list" where
  "drawCell random s loadedImages cell =
     (case cell of (row, col) \<Rightarrow>
        (let index = row * cols (template s) + col;
             base = cellRect (outputW s) (outputH s) (template s) row col;
             r = (if style (template s) = Some ''polaroid'' \<and> index < length loadedImages
                  then jitter (padding (outputW s) (outputH s)) (random index) base
                  else base)
         in if index < length loadedImages \<and> index < length (imageTransforms s)
            then StyledImage (loadedImages ! index) r (styleOrGrid (template s)) (filterId s)
                   (imageTransforms s ! index)
                 # (if selectedImageIndex s = Some index then [SelectionBorder r] else [])
            else [Placeholder (index + 1) r]))"

text \<open>
  The loading loop (lines 275-283) keeps the images that load, in order; \<open>loadImage\<close> gives
  \<open>None\<close> for a source whose load is rejected.
\<close>

definition loadImages :: "(string \<Rightarrow> 'img option) \<Rightarrow> component \<Rightarrow> 'img list" where
  "loadImages loadImage s =
     List.map_filter loadImage
       (take (min (length (images s)) (rows (template s) * cols (template s))) (images s))"

definition drawCollage ::
  "(string \<Rightarrow> 'img option) \<Rightarrow> (nat \<Rightarrow> real \<times> real) \<Rightarrow> component \<Rightarrow> 'img draw list" where
  "drawCollage loadImage random s =
     (case canvas s of
        None \<Rightarrow> []
      | Some c \<Rightarrow>
        if \<not> hasContext c then []
        else
          (let loadedImages = loadImages loadImage s
           in Background
              # concat (map (drawCell random s loadedImages) (cells (template s)))
              @ (if length loadedImages > 0
                 then [Watermark (outputW s - padding (outputW s) (outputH s))
                         (outputH s - padding (outputW s) (outputH s) / 2)]
                 else [])))"

text \<open>The cells of a render that show an image, and those that show a placeholder.\<close>

definition isImage :: "'img draw \<Rightarrow> bool" where
  "isImage d = (case d of StyledImage _ _ _ _ _ \<Rightarrow> True | _ \<Rightarrow> False)"

definition isPlaceholder :: "'img draw \<Rightarrow> bool" where
  "isPlaceholder d = (case d of Placeholder _ _ \<Rightarrow> True | _ \<Rightarrow> False)"

definition isWatermark :: "'img draw \<Rightarrow> bool" where
  "isWatermark d = (case d of Watermark _ _ \<Rightarrow> True | _ \<Rightarrow> False)"

section \<open>Notions of the specification\<close>

definition clamp :: "real \<Rightarrow> real \<Rightarrow> real \<Rightarrow> real" where
  "clamp v lo hi = (if v < lo then lo else if hi < v then hi else v)"

text \<open>
  A step from \<open>s\<close> to \<open>s'\<close> that leaves the images and every transform but the one at
  index \<open>i\<close> as they are.
\<close>

definition unchangedExcept :: "nat \<Rightarrow> component \<Rightarrow> component \<Rightarrow> bool" where
  "unchangedExcept i s s' \<longleftrightarrow>
     images s' = images s \<and>
     length (imageTransforms s') = length (imageTransforms s) \<and>
     (\<forall>j<length (imageTransforms s). j \<noteq> i \<longrightarrow> imageTransforms s' ! j = imageTransforms s ! j)"

text \<open>The scale between the displayed canvas and the output, and the centre of a rectangle.\<close>

definition scaleX :: "component \<Rightarrow> canvasElement \<Rightarrow> real" where
  "scaleX s c = real (offsetWidth c) / outputW s"

definition scaleY :: "component \<Rightarrow> canvasElement \<Rightarrow> real" where
  "scaleY s c = real (offsetHeight c) / outputH s"

definition centerX :: "rect \<Rightarrow> real" where
  "centerX r = rect_x r + rect_w r / 2"

definition centerY :: "rect \<Rightarrow> real" where
  "centerY r = rect_y r + rect_h r / 2"

text \<open>The cell rectangle of the component's own template and output size.\<close>

definition cellOf :: "component \<Rightarrow> nat \<Rightarrow> nat \<Rightarrow> rect" where
  "cellOf s row col = cellRect (outputW s) (outputH s) (template s) row col"

section \<open>Example inputs\<close>

definition polaroid2x2 :: CollageTemplate where
  "polaroid2x2 = \<lparr>rows = 2, cols = 2, style = Some ''polaroid''\<rparr>"

definition polaroid1x26 :: CollageTemplate where
  "polaroid1x26 = \<lparr>rows = 1, cols = 26, style = Some ''polaroid''\<rparr>"

definition grid1x1 :: CollageTemplate where
  "grid1x1 = \<lparr>rows = 1, cols = 1, style = Some ''grid''\<rparr>"

definition polaroid1x25 :: CollageTemplate where
  "polaroid1x25 = \<lparr>rows = 1, cols = 25, style = Some ''polaroid''\<rparr>"

definition transformA :: ImageTransform where
  "transformA = \<lparr>tx = 10, ty = - 20, scale = 1.5\<rparr>"

definition transformC :: ImageTransform where
  "transformC = \<lparr>tx = - 30, ty = 40, scale = 0.5\<rparr>"

text \<open>Three images in a 2 by 2 grid, drawn at 1080 by 1080 and displayed at a quarter of it.\<close>

definition gridDemo :: component where
  "gridDemo =
     \<lparr>images = [''A'', ''B'', ''C''],
      template = \<lparr>rows = 2, cols = 2, style = Some ''grid''\<rparr>,
      outputW = 1080, outputH = 1080, filterId = ''none'',
      canvas = Some \<lparr>hasContext = True, offsetWidth = 270, offsetHeight = 270\<rparr>,
      canvasRect = Some \<lparr>rect_left = 10, rect_top = 20\<rparr>,
      dragIndex = None, dropIndex = None,
      imageTransforms = [transformA, defaultTransform, transformC],
      selectedImageIndex = None, dragState = None\<rparr>"

definition selectedDemo :: component where
  "selectedDemo = gridDemo\<lparr>selectedImageIndex := Some 0\<rparr>"

definition draggingDemo :: component where
  "draggingDemo = handleCanvasDragStart 79.525 89.525 gridDemo"

definition reorderDemo :: component where
  "reorderDemo = handleDrop 2 (handleDragStart 0 gridDemo)"

text \<open>Twenty-six images in one row of twenty-six polaroid cells.\<close>

definition wideDemo :: component where
  "wideDemo = gridDemo\<lparr>images := replicate 26 ''A'', template := polaroid1x26,
     imageTransforms := replicate 26 defaultTransform\<rparr>"

text \<open>
  The render that runs right after the first upload, before the transforms are reconciled;
  a loader under which every source loads, one under which the source \<open>B\<close> fails, and
  one under which every source fails; and a fixed stand-in for the random numbers.
\<close>

definition firstRenderDemo :: component where
  "firstRenderDemo = gridDemo\<lparr>imageTransforms := []\<rparr>"

definition loadAll :: "string \<Rightarrow> string option" where
  "loadAll src = Some src"

definition loadAllButB :: "string \<Rightarrow> string option" where
  "loadAllButB src = (if src = ''B'' then None else Some src)"

definition loadNone :: "string \<Rightarrow> string option" where
  "loadNone src = None"

definition fixedRandom :: "nat \<Rightarrow> real \<times> real" where
  "fixedRandom index = (0.5, 0.5)"

section \<open>Properties of the output size\<close>

lemma Math_round_divide:
  "b \<noteq> 0 \<Longrightarrow> Math_round (divide_js a b) = Finite (of_int (round (a / b)))"
  by (simp add: Math_round_def divide_js_def round_def)

lemma Math_round_nearest:
  "Math_round (Finite q) = Finite (of_int n) \<longleftrightarrow> q - 1 / 2 < of_int n \<and> of_int n \<le> q + 1 / 2"
  by (auto simp: Math_round_def floor_eq_iff le_floor_iff)

text \<open>
  C1. For an aspect ratio with \<open>w \<ge> h\<close> the output width is the resolution and the height
  is \<open>resolution * h / w\<close> rounded to the nearest integer; for \<open>h > w\<close> the height is the
  resolution and the width is \<open>resolution * w / h\<close> rounded. Both copies of the function
  agree. The divisor of the quotient is assumed nonzero, which every aspect ratio satisfies.
\<close>

theorem calculateOutputSize_anchors_larger_side:
  "(h \<le> w \<longrightarrow> w \<noteq> 0 \<longrightarrow>
      calculateOutputSize w h resolution =
        \<lparr>width = Finite resolution,
         height = Finite (of_int (round (resolution * h / w)))\<rparr> \<and>
      calculateSize w h resolution = calculateOutputSize w h resolution) \<and>
   (w < h \<longrightarrow> h \<noteq> 0 \<longrightarrow>
      calculateOutputSize w h resolution =
        \<lparr>width = Finite (of_int (round (resolution * w / h))),
         height = Finite resolution\<rparr> \<and>
      calculateSize w h resolution = calculateOutputSize w h resolution)"
  by (simp add: calculateOutputSize_def calculateSize_def Math_round_divide)

theorem calculateOutputSize_anchors_larger_side_witness:
  "(9::real) \<le> 16 \<and> (16::real) \<noteq> 0 \<and> (3::real) < 4 \<and> (4::real) \<noteq> 0 \<and>
   calculateOutputSize 16 9 1080 = \<lparr>width = Finite 1080, height = Finite 608\<rparr> \<and>
   calculateSize 16 9 1080 = \<lparr>width = Finite 1080, height = Finite 608\<rparr> \<and>
   calculateOutputSize 3 4 1080 = \<lparr>width = Finite 810, height = Finite 1080\<rparr> \<and>
   calculateSize 3 4 1080 = \<lparr>width = Finite 810, height = Finite 1080\<rparr>"
proof -
  have r1: "round (1080 * 9 / 16 :: real) = 608"
    by (simp add: round_def floor_eq_iff)
  have r2: "round (1080 * 3 / 4 :: real) = 810"
    by (simp add: round_def floor_eq_iff)
  show ?thesis
    using calculateOutputSize_anchors_larger_side [of 9 16 1080]
      calculateOutputSize_anchors_larger_side [of 4 3 1080] r1 r2
    by simp
qed

text \<open>
  The claim C7 as stated fails: \<^verbatim>\<open>calculateOutputSize\<close> has no validation. At the aspect
  ratio 1:1 and the resolution 0, where the specification's function fails with a
  \<open>ConfigurationError\<close>, the code returns the size 0 by 0; at the aspect ratio -16:9 it
  returns a negative width.
\<close>

theorem calculateOutputSize_no_error_counterexample:
  "computeOutputSize_spec 1 1 0 = Inl ConfigurationError \<and>
   calculateOutputSize 1 1 0 = \<lparr>width = Finite 0, height = Finite 0\<rparr> \<and>
   computeOutputSize_spec (- 16) 9 1080 = Inl ConfigurationError \<and>
   calculateOutputSize (- 16) 9 1080 = \<lparr>width = Finite (- 1920), height = Finite 1080\<rparr>"
proof -
  have r: "round (1080 * (- 16) / 9 :: real) = - 1920"
    by (simp add: round_def floor_eq_iff)
  show ?thesis
    using r by (simp add: computeOutputSize_spec_def calculateOutputSize_def
        Math_round_divide)
qed

text \<open>
  C7, as amended. For an input with a non-positive aspect component or resolution
  \<^verbatim>\<open>calculateOutputSize\<close> does not fail: it returns a size by the same formula as for
  every other input. The side it anchors equals the given resolution; the other side is
  the rounded quotient, and is not finite when the divisor is 0. On the inputs that the
  specification accepts, the code returns the size that the specification describes.
\<close>

theorem calculateOutputSize_no_validation:
  "(w \<le> 0 \<or> h \<le> 0 \<or> resolution \<le> 0 \<longrightarrow>
      calculateOutputSize w h resolution =
        (if h \<le> w
         then \<lparr>width = Finite resolution,
               height = (if w = 0 then NonFinite
                         else Finite (of_int (round (resolution * h / w))))\<rparr>
         else \<lparr>width = (if h = 0 then NonFinite
                        else Finite (of_int (round (resolution * w / h)))),
               height = Finite resolution\<rparr>)) \<and>
   (0 < w \<and> 0 < h \<and> 0 < resolution \<longrightarrow>
      computeOutputSize_spec w h resolution = Inr (calculateOutputSize w h resolution))"
  by (simp add: calculateOutputSize_def computeOutputSize_spec_def Math_round_divide)
    (simp add: divide_js_def Math_round_def)

theorem calculateOutputSize_no_validation_witness:
  "(0::real) \<le> 0 \<and>
   calculateOutputSize 1 1 0 = \<lparr>width = Finite 0, height = Finite 0\<rparr> \<and>
   (0::real) < 1080 \<and>
   computeOutputSize_spec 1 1 1080 = Inr (calculateOutputSize 1 1 1080)"
  using calculateOutputSize_no_validation [of 1 1 0]
    calculateOutputSize_no_validation [of 1 1 1080]
  by simp

section \<open>Properties of the cell grid\<close>

lemma cells_length: "length (cells t) = rows t * cols t"
  by (simp add: cells_def)

lemma cells_nth:
  "i < rows t * cols t \<Longrightarrow> cells t ! i = (i div cols t, i mod cols t)"
proof -
  assume i: "i < rows t * cols t"
  then have c: "0 < cols t" by (cases "cols t") auto
  from i have d: "i div cols t < rows t"
    by (simp add: less_mult_imp_div_less)
  from c have m: "i mod cols t < cols t" by simp
  show ?thesis
    using i d m by (simp add: cells_def product_nth)
qed

lemma cells_row_major:
  "row < rows t \<Longrightarrow> col < cols t \<Longrightarrow> row * cols t + col < rows t * cols t \<and> cells t ! (row * cols t + col) = (row, col)"
proof -
  assume r: "row < rows t" and c: "col < cols t"
  have "row * cols t + col < Suc row * cols t" using c by simp
  also have "\<dots> \<le> rows t * cols t" using r by (intro mult_le_mono1) simp
  finally have lt: "row * cols t + col < rows t * cols t" .
  show ?thesis using lt c by (simp add: cells_nth)
qed

lemma cellRects_nth:
  "i < rows t * cols t \<Longrightarrow> cellRects W H t ! i = cellRect W H t (i div cols t) (i mod cols t)"
  by (simp add: cellRects_def cells_length cells_nth)

lemma grid_inside_low:
  fixes p g cw :: real
  assumes "0 \<le> cw" "0 \<le> g"
  shows "p \<le> p + real k * (cw + g)"
  using assms by simp

lemma grid_inside_high:
  fixes p g cw :: real
  assumes "k < n" "0 \<le> cw" "0 \<le> g"
  shows "p + real k * (cw + g) + cw \<le> p + (real n * cw + g * (real n - 1))"
proof -
  have "real k \<le> real n - 1" using assms(1) by linarith
  then have "real k * (cw + g) \<le> (real n - 1) * (cw + g)"
    using assms(2,3) by (intro mult_right_mono) simp_all
  then show ?thesis by (simp add: algebra_simps)
qed

lemma grid_disjoint:
  fixes p g cw :: real
  assumes "k < k'" "0 \<le> cw" "0 < g"
  shows "p + real k * (cw + g) + cw < p + real k' * (cw + g)"
proof -
  have "real k + 1 \<le> real k'" using assms(1) by linarith
  then have "(real k + 1) * (cw + g) \<le> real k' * (cw + g)"
    using assms(2,3) by (intro mult_right_mono) simp_all
  then show ?thesis using assms(3) by (simp add: algebra_simps)
qed

lemma padding_pos: "0 < W \<Longrightarrow> 0 < H \<Longrightarrow> 0 < padding W H"
  by (simp add: padding_def)

lemma gap_pos: "0 < p \<Longrightarrow> 0 < gap t p"
  by (simp add: gap_def)

lemma cellWidth_total:
  "0 < cols t \<Longrightarrow> real (cols t) * cellWidth W H t + gap t (padding W H) * (real (cols t) - 1) = W - 2 * padding W H"
  by (simp add: cellWidth_def availableWidth_def)

lemma cellHeight_total:
  "0 < rows t \<Longrightarrow> real (rows t) * cellHeight W H t + gap t (padding W H) * (real (rows t) - 1) = H - 2 * padding W H"
  by (simp add: cellHeight_def availableHeight_def)

lemma cellRect_inside:
  assumes "0 < W" "0 < H" "row < rows t" "col < cols t"
    "0 \<le> cellWidth W H t" "0 \<le> cellHeight W H t"
  shows "insidePadding W H (cellRect W H t row col)"
proof -
  let ?p = "padding W H" and ?g = "gap t (padding W H)"
  let ?cw = "cellWidth W H t" and ?ch = "cellHeight W H t"
  have p: "0 < ?p" using assms(1,2) by (rule padding_pos)
  have g: "0 \<le> ?g" using gap_pos [OF p, of t] by simp
  have x0: "?p \<le> ?p + real col * (?cw + ?g)" using assms(5) g by simp
  have y0: "?p \<le> ?p + real row * (?ch + ?g)" using assms(6) g by simp
  have "?p + real col * (?cw + ?g) + ?cw \<le> ?p + (real (cols t) * ?cw + ?g * (real (cols t) - 1))"
    using assms(4,5) g by (rule grid_inside_high)
  also have "\<dots> = W - ?p" using cellWidth_total [of t W H] assms(4) by simp
  finally have x1: "?p + real col * (?cw + ?g) + ?cw \<le> W - ?p" .
  have "?p + real row * (?ch + ?g) + ?ch \<le> ?p + (real (rows t) * ?ch + ?g * (real (rows t) - 1))"
    using assms(3,6) g by (rule grid_inside_high)
  also have "\<dots> = H - ?p" using cellHeight_total [of t W H] assms(3) by simp
  finally have y1: "?p + real row * (?ch + ?g) + ?ch \<le> H - ?p" .
  show ?thesis
    using x0 y0 x1 y1 assms(5,6) by (simp add: insidePadding_def cellRect_def)
qed

lemma cellRect_disjoint:
  assumes "0 < W" "0 < H" "0 \<le> cellWidth W H t" "0 \<le> cellHeight W H t"
    "(row, col) \<noteq> (row', col')"
    "inCell px py (cellRect W H t row col)"
  shows "\<not> inCell px py (cellRect W H t row' col')"
proof -
  let ?p = "padding W H" and ?g = "gap t (padding W H)"
  let ?cw = "cellWidth W H t" and ?ch = "cellHeight W H t"
  have g: "0 < ?g" using assms(1,2) by (intro gap_pos padding_pos)
  consider "col < col'" | "col' < col" | "row < row'" | "row' < row"
    using assms(5) by fastforce
  then show ?thesis
  proof cases
    case 1
    from grid_disjoint [OF 1 assms(3) g, of ?p] assms(6) show ?thesis
      by (simp add: inCell_def cellRect_def)
  next
    case 2
    from grid_disjoint [OF 2 assms(3) g, of ?p] assms(6) show ?thesis
      by (simp add: inCell_def cellRect_def)
  next
    case 3
    from grid_disjoint [OF 3 assms(4) g, of ?p] assms(6) show ?thesis
      by (simp add: inCell_def cellRect_def)
  next
    case 4
    from grid_disjoint [OF 4 assms(4) g, of ?p] assms(6) show ?thesis
      by (simp add: inCell_def cellRect_def)
  qed
qed

text \<open>Every grid of up to 24 by 24 cells leaves room, whatever the style.\<close>

lemma cellWidth_pos_24:
  assumes "0 < W" "0 < H" "1 \<le> cols t" "cols t \<le> 24"
  shows "0 < cellWidth W H t"
proof -
  let ?p = "padding W H"
  have p: "0 < ?p" using assms(1,2) by (rule padding_pos)
  have pW: "?p \<le> W * 0.02" by (simp add: padding_def)
  have gle: "gap t ?p \<le> 2 * ?p" using p by (simp add: gap_def)
  have n: "0 \<le> real (cols t) - 1" "real (cols t) - 1 \<le> 23" using assms(3,4) by simp_all
  have "gap t ?p * (real (cols t) - 1) \<le> (2 * ?p) * 23"
    using gle n p by (intro mult_mono) simp_all
  then have "0 < availableWidth W H t"
    using pW assms(1) by (simp add: availableWidth_def)
  then show ?thesis using assms(3) by (simp add: cellWidth_def)
qed

lemma cellHeight_pos_24:
  assumes "0 < W" "0 < H" "1 \<le> rows t" "rows t \<le> 24"
  shows "0 < cellHeight W H t"
proof -
  let ?p = "padding W H"
  have p: "0 < ?p" using assms(1,2) by (rule padding_pos)
  have pH: "?p \<le> H * 0.02" by (simp add: padding_def)
  have gle: "gap t ?p \<le> 2 * ?p" using p by (simp add: gap_def)
  have n: "0 \<le> real (rows t) - 1" "real (rows t) - 1 \<le> 23" using assms(3,4) by simp_all
  have "gap t ?p * (real (rows t) - 1) \<le> (2 * ?p) * 23"
    using gle n p by (intro mult_mono) simp_all
  then have "0 < availableHeight W H t"
    using pH assms(2) by (simp add: availableHeight_def)
  then show ?thesis using assms(3) by (simp add: cellHeight_def)
qed

text \<open>
  C2, as amended. Take a canvas of positive size and a grid of \<open>rows\<close> by \<open>cols\<close> cells whose
  gaps leave room for the cells, so that the cell width \<open>cw\<close> and height \<open>ch\<close> are positive.
  With the padding \<open>p\<close> = 2% of the smaller output side and the gap \<open>g\<close> = twice the
  padding for the polaroid style and half the padding for every other style, there are
  \<open>rows * cols\<close> rectangles in row-major order; the one of cell \<open>(row, col)\<close> is at
  \<open>p + col * (cw + g)\<close>, \<open>p + row * (ch + g)\<close> with the width \<open>cw\<close> and the height \<open>ch\<close>, so
  that neighbours are one gap apart; all have the same width and height; no two share a
  point; and each lies inside the canvas, its left and top edge at least the padding and its
  right and bottom edge more than half the padding away from the canvas edge. (In exact
  arithmetic the last column ends at the width minus the padding; the source's binary64
  numbers can end it one rounding error beyond that.) The rectangles are those before the
  random offset of the polaroid style.
\<close>

theorem cellRects_uniform_grid:
  assumes "0 < W" "0 < H" "1 \<le> rows t" "1 \<le> cols t"
    and p: "p = min W H * 0.02"
    and g: "g = (if style t = Some ''polaroid'' then p * 2 else p * 0.5)"
    and cw: "cw = (W - p * 2 - g * (real (cols t) - 1)) / real (cols t)"
    and ch: "ch = (H - p * 2 - g * (real (rows t) - 1)) / real (rows t)"
    and room: "0 < cw" "0 < ch"
  shows "length (cellRects W H t) = rows t * cols t \<and>
    (\<forall>row<rows t. \<forall>col<cols t.
       cellRects W H t ! (row * cols t + col) =
         \<lparr>rect_x = p + real col * (cw + g), rect_y = p + real row * (ch + g),
          rect_w = cw, rect_h = ch\<rparr>) \<and>
    (\<forall>r\<in>set (cellRects W H t).
       rect_w r = cw \<and> rect_h r = ch \<and> p \<le> rect_x r \<and> p \<le> rect_y r \<and>
       rect_x r + rect_w r < W - p / 2 \<and> rect_y r + rect_h r < H - p / 2) \<and>
    (\<forall>i<rows t * cols t. \<forall>j<rows t * cols t. i \<noteq> j \<longrightarrow>
       (\<forall>px py. inCell px py (cellRects W H t ! i) \<longrightarrow>
                \<not> inCell px py (cellRects W H t ! j)))"
proof -
  have pe: "padding W H = p" by (simp add: p padding_def)
  have ge: "gap t p = g" by (simp add: g gap_def)
  have cwe: "cellWidth W H t = cw"
    by (simp add: cw cellWidth_def availableWidth_def pe ge)
  have che: "cellHeight W H t = ch"
    by (simp add: ch cellHeight_def availableHeight_def pe ge)
  have rect: "cellRect W H t row col =
      \<lparr>rect_x = p + real col * (cw + g), rect_y = p + real row * (ch + g),
       rect_w = cw, rect_h = ch\<rparr>" for row col
    by (simp add: cellRect_def pe ge cwe che)
  have nn: "0 \<le> cellWidth W H t" "0 \<le> cellHeight W H t"
    using room by (simp_all add: cwe che)
  have pp: "0 < p" using assms(1,2) by (simp add: p)
  have len: "length (cellRects W H t) = rows t * cols t"
    by (simp add: cellRects_def cells_length)
  have major: "\<forall>row<rows t. \<forall>col<cols t.
      cellRects W H t ! (row * cols t + col) =
        \<lparr>rect_x = p + real col * (cw + g), rect_y = p + real row * (ch + g),
         rect_w = cw, rect_h = ch\<rparr>"
    using cells_row_major [of _ t] by (simp add: cellRects_def cells_length rect)
  have uniform: "\<forall>r\<in>set (cellRects W H t).
      rect_w r = cw \<and> rect_h r = ch \<and> p \<le> rect_x r \<and> p \<le> rect_y r \<and>
      rect_x r + rect_w r < W - p / 2 \<and> rect_y r + rect_h r < H - p / 2"
  proof
    fix r assume "r \<in> set (cellRects W H t)"
    then obtain row col where rc: "row < rows t" "col < cols t" and r: "r = cellRect W H t row col"
      by (auto simp: cellRects_def cells_def)
    have "insidePadding W H r"
      unfolding r using assms(1,2) rc nn by (rule cellRect_inside)
    then have "p \<le> rect_x r \<and> p \<le> rect_y r \<and>
        rect_x r + rect_w r \<le> W - p \<and> rect_y r + rect_h r \<le> H - p"
      by (simp add: insidePadding_def pe)
    moreover have "rect_w r = cw \<and> rect_h r = ch"
      by (simp add: r rect)
    ultimately show "rect_w r = cw \<and> rect_h r = ch \<and> p \<le> rect_x r \<and> p \<le> rect_y r \<and>
        rect_x r + rect_w r < W - p / 2 \<and> rect_y r + rect_h r < H - p / 2"
      using pp by simp
  qed
  have apart: "\<forall>i<rows t * cols t. \<forall>j<rows t * cols t. i \<noteq> j \<longrightarrow>
      (\<forall>px py. inCell px py (cellRects W H t ! i) \<longrightarrow> \<not> inCell px py (cellRects W H t ! j))"
  proof (intro allI impI)
    fix i j px py
    assume i: "i < rows t * cols t" and j: "j < rows t * cols t" and ij: "i \<noteq> j"
      and hit: "inCell px py (cellRects W H t ! i)"
    have "(i div cols t, i mod cols t) \<noteq> (j div cols t, j mod cols t)"
      using ij by (metis div_mult_mod_eq prod.inject)
    then show "\<not> inCell px py (cellRects W H t ! j)"
      using cellRect_disjoint [OF assms(1,2) nn] hit i j by (simp add: cellRects_nth)
  qed
  show ?thesis using len major uniform apart by blast
qed

theorem cellRects_uniform_grid_witness:
  "(0::real) < 1080 \<and> 1 \<le> rows polaroid2x2 \<and> 1 \<le> cols polaroid2x2 \<and>
   (21.6::real) = min 1080 1080 * 0.02 \<and>
   (43.2::real) = (if style polaroid2x2 = Some ''polaroid'' then 21.6 * 2 else 21.6 * 0.5) \<and>
   (496.8::real) = (1080 - 21.6 * 2 - 43.2 * (real (cols polaroid2x2) - 1)) / real (cols polaroid2x2) \<and>
   (496.8::real) = (1080 - 21.6 * 2 - 43.2 * (real (rows polaroid2x2) - 1)) / real (rows polaroid2x2) \<and>
   (0::real) < 496.8 \<and>
   length (cellRects 1080 1080 polaroid2x2) = 4 \<and>
   cellRects 1080 1080 polaroid2x2 ! 3 =
     \<lparr>rect_x = 561.6, rect_y = 561.6, rect_w = 496.8, rect_h = 496.8\<rparr> \<and>
   \<not> inCell 561.6 561.6 (cellRects 1080 1080 polaroid2x2 ! 0)"
proof -
  have rc: "rows polaroid2x2 = 2" "cols polaroid2x2 = 2" "style polaroid2x2 = Some ''polaroid''"
    by (simp_all add: polaroid2x2_def)
  have h: "(0::real) < 1080" "1 \<le> rows polaroid2x2" "1 \<le> cols polaroid2x2"
    "(21.6::real) = min 1080 1080 * 0.02"
    "(43.2::real) = (if style polaroid2x2 = Some ''polaroid'' then 21.6 * 2 else 21.6 * 0.5)"
    "(496.8::real) = (1080 - 21.6 * 2 - 43.2 * (real (cols polaroid2x2) - 1)) / real (cols polaroid2x2)"
    "(496.8::real) = (1080 - 21.6 * 2 - 43.2 * (real (rows polaroid2x2) - 1)) / real (rows polaroid2x2)"
    "(0::real) < 496.8"
    by (simp_all add: rc)
  note g = cellRects_uniform_grid [OF h(1) h(1) h(2) h(3) h(4) h(5) h(6) h(7) h(8) h(8)]
  from g have len: "length (cellRects 1080 1080 polaroid2x2) = 4" by (simp add: rc)
  from g have major: "\<forall>row<rows polaroid2x2. \<forall>col<cols polaroid2x2.
       cellRects 1080 1080 polaroid2x2 ! (row * cols polaroid2x2 + col) =
         \<lparr>rect_x = 21.6 + real col * (496.8 + 43.2), rect_y = 21.6 + real row * (496.8 + 43.2),
          rect_w = 496.8, rect_h = 496.8\<rparr>"
    by blast
  have c3: "cellRects 1080 1080 polaroid2x2 ! 3 =
     \<lparr>rect_x = 561.6, rect_y = 561.6, rect_w = 496.8, rect_h = 496.8\<rparr>"
    using major [rule_format, of 1 1] by (simp add: rc)
  have "inCell 561.6 561.6 (cellRects 1080 1080 polaroid2x2 ! 3)"
    by (simp add: c3 inCell_def)
  moreover from g have apart: "\<forall>i<rows polaroid2x2 * cols polaroid2x2.
       \<forall>j<rows polaroid2x2 * cols polaroid2x2. i \<noteq> j \<longrightarrow>
       (\<forall>px py. inCell px py (cellRects 1080 1080 polaroid2x2 ! i) \<longrightarrow>
                \<not> inCell px py (cellRects 1080 1080 polaroid2x2 ! j))"
    by blast
  have "\<forall>px py. inCell px py (cellRects 1080 1080 polaroid2x2 ! 3) \<longrightarrow>
                \<not> inCell px py (cellRects 1080 1080 polaroid2x2 ! 0)"
    using apart [rule_format, of 3 0] by (simp add: rc)
  ultimately have n0: "\<not> inCell 561.6 561.6 (cellRects 1080 1080 polaroid2x2 ! 0)" by blast
  show ?thesis using h len c3 n0 by simp
qed

text \<open>
  The claim as stated fails for a grid whose gaps alone exceed the canvas: with 26 columns
  in the polaroid style on a 1080 by 1080 canvas the cell width is negative and the last
  cell starts beyond the padded area.
\<close>

theorem cellRects_negative_width_counterexample:
  "1 \<le> rows polaroid1x26 \<and> 1 \<le> cols polaroid1x26 \<and>
   rect_w (cellRects 1080 1080 polaroid1x26 ! 25) < 0 \<and>
   \<not> insidePadding 1080 1080 (cellRects 1080 1080 polaroid1x26 ! 25)"
proof -
  have rc: "rows polaroid1x26 = 1" "cols polaroid1x26 = 26" by (simp_all add: polaroid1x26_def)
  have cw: "cellWidth 1080 1080 polaroid1x26 = - 43.2 / 26"
    by (simp add: cellWidth_def availableWidth_def padding_def gap_def polaroid1x26_def)
  have nth: "cellRects 1080 1080 polaroid1x26 ! 25 = cellRect 1080 1080 polaroid1x26 0 25"
    using cellRects_nth [of 25 polaroid1x26 1080 1080] by (simp add: rc)
  have x: "rect_x (cellRect 1080 1080 polaroid1x26 0 25) = 21.6 + 25 * (- 43.2 / 26 + 43.2)"
    by (simp add: cellRect_def cw) (simp add: padding_def gap_def polaroid1x26_def)
  have w: "rect_w (cellRect 1080 1080 polaroid1x26 0 25) = - 43.2 / 26"
    by (simp add: cellRect_def cw)
  have "\<not> rect_x (cellRect 1080 1080 polaroid1x26 0 25) \<le> 1080 - padding 1080 1080"
    by (simp add: x padding_def)
  then have "\<not> insidePadding 1080 1080 (cellRect 1080 1080 polaroid1x26 0 25)"
    by (simp add: insidePadding_def)
  then show ?thesis by (simp add: rc nth w)
qed

text \<open>
  What is drawn in the polaroid style is the cell rectangle moved by the random offset, at
  most half the padding in each axis. The gap of that style is twice the padding, so the
  moved rectangles still share no point; but a moved rectangle can leave the padded area.
\<close>

lemma grid_disjoint_jitter:
  fixes p q cw a b :: real
  assumes "k < k'" "0 \<le> cw" "0 < p" "a \<le> 1" "0 \<le> b"
  shows "q + real k * (cw + p * 2) + (a - 0.5) * p + cw <
         q + real k' * (cw + p * 2) + (b - 0.5) * p"
proof -
  have "real k + 1 \<le> real k'" using assms(1) by linarith
  then have m: "(real k + 1) * (cw + p * 2) \<le> real k' * (cw + p * 2)"
    using assms(2,3) by (intro mult_right_mono) simp_all
  have e: "(real k + 1) * (cw + p * 2) = real k * (cw + p * 2) + cw + p * 2"
    by (simp add: algebra_simps)
  have ap: "a * p \<le> 1 * p" using assms(3,4) by (intro mult_right_mono) simp_all
  have bp: "0 \<le> b * p" using assms(3,5) by simp
  have d: "(a - 0.5) * p = a * p - p / 2" "(b - 0.5) * p = b * p - p / 2"
    by (simp_all add: algebra_simps)
  show ?thesis
    unfolding d using m e ap bp assms(3) by linarith
qed

lemma jitter_keeps_cells_apart:
  assumes "0 < W" "0 < H" "style t = Some ''polaroid''"
    "0 \<le> cellWidth W H t" "0 \<le> cellHeight W H t"
    "(row, col) \<noteq> (row', col')"
    "0 \<le> fst rnd" "fst rnd \<le> 1" "0 \<le> snd rnd" "snd rnd \<le> 1"
    "0 \<le> fst rnd'" "fst rnd' \<le> 1" "0 \<le> snd rnd'" "snd rnd' \<le> 1"
    "inCell px py (jitter (padding W H) rnd (cellRect W H t row col))"
  shows "\<not> inCell px py (jitter (padding W H) rnd' (cellRect W H t row' col'))"
proof -
  let ?p = "padding W H"
  have p: "0 < ?p" using assms(1,2) by (rule padding_pos)
  have g: "gap t ?p = ?p * 2" using assms(3) by (simp add: gap_def)
  consider "col < col'" | "col' < col" | "row < row'" | "row' < row"
    using assms(6) by fastforce
  then show ?thesis
  proof cases
    case 1
    from grid_disjoint_jitter [OF 1 assms(4) p assms(8) assms(11), of ?p] assms(15) show ?thesis
      by (simp add: inCell_def cellRect_def jitter_def g)
  next
    case 2
    from grid_disjoint_jitter [OF 2 assms(4) p assms(12) assms(7), of ?p] assms(15) show ?thesis
      by (simp add: inCell_def cellRect_def jitter_def g)
  next
    case 3
    from grid_disjoint_jitter [OF 3 assms(5) p assms(10) assms(13), of ?p] assms(15) show ?thesis
      by (simp add: inCell_def cellRect_def jitter_def g)
  next
    case 4
    from grid_disjoint_jitter [OF 4 assms(5) p assms(14) assms(9), of ?p] assms(15) show ?thesis
      by (simp add: inCell_def cellRect_def jitter_def g)
  qed
qed

lemma jitter_can_leave_padding:
  "\<not> insidePadding 1080 1080 (jitter (padding 1080 1080) (0, 0) (cellRect 1080 1080 polaroid2x2 0 0))"
  by (simp add: insidePadding_def jitter_def cellRect_def padding_def)

section \<open>The cell grid in double precision: two replays\<close>

lemma double_at_exponent:
  assumes "2 powr of_int e \<le> \<bar>v\<bar>" "\<bar>v\<bar> < 2 powr (of_int e + 1)"
  shows "double v = of_int (roundHalfEven (v / 2 powr (of_int e - 52))) * 2 powr (of_int e - 52)"
proof -
  have pos: "0 < \<bar>v\<bar>" using assms(1) by (smt (verit) powr_gt_zero)
  then have "\<lfloor>log 2 \<bar>v\<bar>\<rfloor> = e"
    using assms by (simp add: floor_log_eq_powr_iff)
  with pos show ?thesis by (simp add: double_def)
qed

lemma double_up:
  assumes "2 ^ n \<le> \<bar>v\<bar>" "\<bar>v\<bar> < 2 * 2 ^ n" "n \<le> 52"
  shows "double v = of_int (roundHalfEven (v * 2 ^ (52 - n))) / 2 ^ (52 - n)"
proof -
  have a: "2 powr of_int (int n) = (2::real) ^ n"
    by (simp add: powr_realpow)
  have b: "2 powr (of_int (int n) + 1) = (2::real) * 2 ^ n"
    by (simp add: powr_add powr_realpow)
  have c: "2 powr (of_int (int n) - 52) = 1 / (2::real) ^ (52 - n)"
    using assms(3) by (simp add: powr_diff powr_realpow power_diff)
  show ?thesis
    using double_at_exponent [of "int n" v] assms(1,2) unfolding a b c by simp
qed

lemma double_down:
  assumes "1 / 2 ^ n \<le> \<bar>v\<bar>" "\<bar>v\<bar> < 2 / 2 ^ n"
  shows "double v = of_int (roundHalfEven (v * 2 ^ (52 + n))) / 2 ^ (52 + n)"
proof -
  have a: "2 powr of_int (- int n) = 1 / (2::real) ^ n"
    by (simp add: powr_minus powr_realpow divide_simps)
  have b: "2 powr (of_int (- int n) + 1) = (2::real) / 2 ^ n"
  proof -
    have "of_int (- int n) + 1 = (1::real) - real n" by simp
    then have "2 powr (of_int (- int n) + 1) = (2::real) powr 1 / 2 powr real n"
      by (simp only: powr_diff)
    then show ?thesis by (simp add: powr_realpow)
  qed
  have c: "2 powr (of_int (- int n) - 52) = 1 / (2::real) ^ (52 + n)"
  proof -
    have "of_int (- int n) - 52 = - real (52 + n)" by simp
    then have "2 powr (of_int (- int n) - 52) = 1 / (2::real) powr real (52 + n)"
      by (simp only: powr_minus_divide)
    then show ?thesis by (simp only: powr_realpow [of 2, simplified])
  qed
  show ?thesis
    using double_at_exponent [of "- int n" v] assms unfolding a b c by simp
qed

lemma d002: "double 0.02 = 5764607523034235 / 2 ^ 58"
  by (subst double_down [of 6]) (simp_all add: roundHalfEven_def)

lemma double_zero: "double 0 = 0"
  by (simp add: double_def)

lemma padding64_810: "padding64 810 1080 = 4559894622712627 / 2 ^ 48"
  unfolding padding64_def d002
  by (subst double_up [of 4]) (simp_all add: roundHalfEven_def)

lemma gap64_810: "gap64 grid1x1 (4559894622712627 / 2 ^ 48) = 4559894622712627 / 2 ^ 49"
proof -
  have h: "double 0.5 = 1 / 2"
    by (subst double_down [of 1]) (simp_all add: roundHalfEven_def)
  show ?thesis
    unfolding gap64_def grid1x1_def h
    by (simp, subst double_up [of 3]) (simp_all add: roundHalfEven_def)
qed

lemma cellWidth64_810: "cellWidth64 810 1080 grid1x1 = 6839841934068941 / 2 ^ 43"
proof -
  have a: "double (4559894622712627 / 2 ^ 48 * 2) = 4559894622712627 / 2 ^ 47"
    by (subst double_up [of 5]) (simp_all add: roundHalfEven_def)
  have b: "double (810 - 4559894622712627 / 2 ^ 47) = 6839841934068941 / 2 ^ 43"
    by (subst double_up [of 9]) (simp_all add: roundHalfEven_def)
  have c: "double (6839841934068941 / 2 ^ 43) = 6839841934068941 / 2 ^ 43"
    by (subst double_up [of 9]) (simp_all add: roundHalfEven_def)
  have cs: "cols grid1x1 = 1" by (simp add: grid1x1_def)
  have av: "availableWidth64 810 1080 grid1x1 = 6839841934068941 / 2 ^ 43"
    unfolding availableWidth64_def padding64_810 gap64_810 a b cs
    using c by (simp add: double_zero)
  show ?thesis
    unfolding cellWidth64_def av cs using c by simp
qed

lemma cellX64_810: "cellX64 810 1080 grid1x1 0 = 4559894622712627 / 2 ^ 48"
proof -
  have "double (4559894622712627 / 2 ^ 48) = 4559894622712627 / 2 ^ 48"
    by (subst double_up [of 4]) (simp_all add: roundHalfEven_def)
  then show ?thesis
    unfolding cellX64_def padding64_810 by (simp add: double_zero)
qed

text \<open>
  At the aspect ratio 3:4 and the resolution 1080 the output is 810 by 1080. For the grid of
  one cell the computed far edge of the cell lies beyond the computed width minus padding:
  793.8000000000001 against 793.8.
\<close>

lemma double_far_edge_beyond_padding:
  "810 - padding64 810 1080 < cellX64 810 1080 grid1x1 0 + cellWidth64 810 1080 grid1x1 \<and>
   double (810 - padding64 810 1080) <
     double (cellX64 810 1080 grid1x1 0 + cellWidth64 810 1080 grid1x1)"
proof -
  have l: "double (810 - 4559894622712627 / 2 ^ 48) = 3491169320514355 / 2 ^ 42"
    by (subst double_up [of 9]) (simp_all add: roundHalfEven_def)
  have r: "double (4559894622712627 / 2 ^ 48 + 6839841934068941 / 2 ^ 43) =
      6982338641028711 / 2 ^ 43"
    by (subst double_up [of 9]) (simp_all add: roundHalfEven_def)
  show ?thesis
    unfolding padding64_810 cellX64_810 cellWidth64_810 l r by simp
qed

text \<open>
  With 25 polaroid columns on a 1080 by 1080 canvas the exact cell width is 0 and the
  computed one is negative.
\<close>

lemma double_width_negative_at_25_columns:
  "cellWidth 1080 1080 polaroid1x25 = 0 \<and> cellWidth64 1080 1080 polaroid1x25 < 0"
proof -
  have exact: "cellWidth 1080 1080 polaroid1x25 = 0"
    by (simp add: cellWidth_def availableWidth_def padding_def gap_def polaroid1x25_def)
  have p: "padding64 1080 1080 = 6079859496950170 / 2 ^ 48"
    unfolding padding64_def d002
    by (subst double_up [of 4]) (simp_all add: roundHalfEven_def)
  have g: "gap64 polaroid1x25 (6079859496950170 / 2 ^ 48) = 6079859496950170 / 2 ^ 47"
    unfolding gap64_def polaroid1x25_def
    by (simp, subst double_up [of 5]) (simp_all add: roundHalfEven_def)
  have a: "double (6079859496950170 / 2 ^ 48 * 2) = 6079859496950170 / 2 ^ 47"
    by (subst double_up [of 5]) (simp_all add: roundHalfEven_def)
  have b: "double (1080 - 6079859496950170 / 2 ^ 47) = 4559894622712627 / 2 ^ 42"
    by (subst double_up [of 10]) (simp_all add: roundHalfEven_def)
  have c: "double (6079859496950170 / 2 ^ 47 * (25 - 1)) = 4559894622712628 / 2 ^ 42"
    by (subst double_up [of 10]) (simp_all add: roundHalfEven_def)
  have d: "double (4559894622712627 / 2 ^ 42 - 4559894622712628 / 2 ^ 42) = - 1 / 2 ^ 42"
    by (subst double_down [of 42]) (simp_all add: roundHalfEven_def)
  have cs: "real (cols polaroid1x25) = 25" by (simp add: polaroid1x25_def)
  have av: "availableWidth64 1080 1080 polaroid1x25 = - 1 / 2 ^ 42"
    unfolding availableWidth64_def p g a b cs c d ..
  have "\<bar>- 1 / 2 ^ 42 / 25 :: real\<bar> < 2 / 2 ^ 47" "1 / 2 ^ 47 \<le> \<bar>- 1 / 2 ^ 42 / 25 :: real\<bar>"
    by simp_all
  then have "double (- 1 / 2 ^ 42 / 25) =
      of_int (roundHalfEven (- 1 / 2 ^ 42 / 25 * 2 ^ (52 + 47))) / 2 ^ (52 + 47)"
    by (intro double_down)
  also have "\<dots> < 0"
    by (simp add: roundHalfEven_def)
  finally show ?thesis
    using exact unfolding cellWidth64_def av cs by simp
qed

section \<open>Properties of the transform array\<close>

lemma updateImageTransform_length [simp]:
  "length (updateImageTransform index p prev) = length prev"
  by (simp add: updateImageTransform_def)

lemma updateImageTransform_nth:
  "j < length prev \<Longrightarrow>
   updateImageTransform index p prev ! j = (if j = index then spread (prev ! j) p else prev ! j)"
  by (simp add: updateImageTransform_def)

lemma resetImageTransform_length [simp]:
  "length (resetImageTransform index prev) = length prev"
  by (simp add: resetImageTransform_def)

lemma resetImageTransform_nth:
  "j < length prev \<Longrightarrow>
   resetImageTransform index prev ! j = (if j = index then defaultTransform else prev ! j)"
  by (simp add: resetImageTransform_def updateImageTransform_nth spread_def defaultTransform_def)

lemma reconcileTransforms_length: "length (reconcileTransforms n prev) = n"
  by (simp add: reconcileTransforms_def)

lemma reconcileTransforms_nth:
  "i < n \<Longrightarrow> reconcileTransforms n prev ! i =
     (if i < length prev then prev ! i else defaultTransform)"
  by (simp add: reconcileTransforms_def defaultTransform_def)

text \<open>
  C8. Reconciling the transform array with a new number of images keeps the entry at every
  index that existed before, gives the default transform to every index beyond the old
  length, and drops the entries beyond the new length: it is the old array cut to the new
  length, followed by defaults. The effect stores this array and leaves the images alone.
\<close>

theorem reconcileTransforms_arena:
  "length (reconcileTransforms n prev) = n \<and>
   (\<forall>i<n. i < length prev \<longrightarrow> reconcileTransforms n prev ! i = prev ! i) \<and>
   (\<forall>i<n. length prev \<le> i \<longrightarrow> reconcileTransforms n prev ! i = defaultTransform) \<and>
   reconcileTransforms n prev = take n prev @ replicate (n - length prev) defaultTransform \<and>
   imageTransforms (imagesLengthEffect s) =
     reconcileTransforms (length (images s)) (imageTransforms s) \<and>
   images (imagesLengthEffect s) = images s"
proof -
  have eq: "reconcileTransforms n prev = take n prev @ replicate (n - length prev) defaultTransform"
    by (rule nth_equalityI)
      (auto simp: reconcileTransforms_length reconcileTransforms_nth nth_append)
  have keep: "\<forall>i<n. i < length prev \<longrightarrow> reconcileTransforms n prev ! i = prev ! i"
    by (simp add: reconcileTransforms_nth)
  have fresh: "\<forall>i<n. length prev \<le> i \<longrightarrow> reconcileTransforms n prev ! i = defaultTransform"
    by (simp add: reconcileTransforms_nth)
  have eff: "imageTransforms (imagesLengthEffect s) =
     reconcileTransforms (length (images s)) (imageTransforms s) \<and>
     images (imagesLengthEffect s) = images s"
    by (simp add: imagesLengthEffect_def)
  show ?thesis
    using eq keep fresh eff reconcileTransforms_length [of n prev] by blast
qed

theorem reconcileTransforms_arena_witness:
  "reconcileTransforms 4 [transformA, defaultTransform, transformC] =
     [transformA, defaultTransform, transformC, defaultTransform] \<and>
   reconcileTransforms 2 [transformA, defaultTransform, transformC] =
     [transformA, defaultTransform] \<and>
   reconcileTransforms 4 [transformA, defaultTransform, transformC] ! 0 = transformA \<and>
   reconcileTransforms 4 [transformA, defaultTransform, transformC] ! 3 = defaultTransform"
proof -
  let ?prev = "[transformA, defaultTransform, transformC]"
  note g = reconcileTransforms_arena [of 4 ?prev gridDemo]
  note h = reconcileTransforms_arena [of 2 ?prev gridDemo]
  from g have keep: "\<forall>i<4. i < length ?prev \<longrightarrow> reconcileTransforms 4 ?prev ! i = ?prev ! i"
    and fresh: "\<forall>i<4. length ?prev \<le> i \<longrightarrow> reconcileTransforms 4 ?prev ! i = defaultTransform"
    and e4: "reconcileTransforms 4 ?prev = take 4 ?prev @ replicate (4 - length ?prev) defaultTransform"
    by blast+
  from h have e2: "reconcileTransforms 2 ?prev = take 2 ?prev @ replicate (2 - length ?prev) defaultTransform"
    by blast
  have r: "replicate (Suc 0) defaultTransform = [defaultTransform]" by simp
  show ?thesis
    using keep [rule_format, of 0] fresh [rule_format, of 3] e4 e2
    by (simp add: numeral_2_eq_2)
qed

lemma panelEdit_selected:
  "selectedImageIndex s = Some i \<Longrightarrow>
   panelEdit edit s =
     (if i < length (imageTransforms s) then s\<lparr>imageTransforms := edit i (imageTransforms s)\<rparr>
      else s)"
  by (simp add: panelEdit_def)

lemma panelEdit_frame:
  assumes "selectedImageIndex s = Some i"
    and "\<And>prev. length (edit i prev) = length prev"
    and "\<And>prev j. j < length prev \<Longrightarrow> j \<noteq> i \<Longrightarrow> edit i prev ! j = prev ! j"
  shows "unchangedExcept i s (panelEdit edit s)"
  using assms by (simp add: panelEdit_selected unchangedExcept_def)

lemma handleCanvasDragMove_transforms:
  "dragState s = Some d \<Longrightarrow> isDragging d \<Longrightarrow>
   handleCanvasDragMove clientX clientY s =
     s\<lparr>imageTransforms :=
         updateImageTransform (imageIndex d)
           \<lparr>set_x = Some (max (- 100) (min 100 (tx (initialTransform d) + (clientX - startX d) * 0.5))),
            set_y = Some (max (- 100) (min 100 (ty (initialTransform d) + (clientY - startY d) * 0.5))),
            set_scale = None\<rparr>
           (imageTransforms s)\<rparr>"
  by (simp add: handleCanvasDragMove_def Let_def)

lemma clamp_max_min: "lo \<le> hi \<Longrightarrow> max lo (min hi v) = clamp v lo hi"
  by (simp add: clamp_def max_def min_def)

text \<open>
  C10. A slider edit, a reset and a canvas drag move each leave the image sequence and the
  transform at every index other than the edited one unchanged.
\<close>

theorem transform_edits_frame:
  "(selectedImageIndex s = Some i \<longrightarrow>
      unchangedExcept i s (xSlider_onChange v s) \<and>
      unchangedExcept i s (ySlider_onChange v s) \<and>
      unchangedExcept i s (scaleSlider_onChange v s) \<and>
      unchangedExcept i s (resetButton_onClick s)) \<and>
   (dragState s = Some d \<longrightarrow>
      unchangedExcept (imageIndex d) s (handleCanvasDragMove clientX clientY s)) \<and>
   (\<forall>j<length prev. j \<noteq> index \<longrightarrow>
      updateImageTransform index p prev ! j = prev ! j \<and>
      resetImageTransform index prev ! j = prev ! j)"
proof -
  have panel: "unchangedExcept i s (xSlider_onChange v s) \<and>
      unchangedExcept i s (ySlider_onChange v s) \<and>
      unchangedExcept i s (scaleSlider_onChange v s) \<and>
      unchangedExcept i s (resetButton_onClick s)"
    if "selectedImageIndex s = Some i"
    unfolding xSlider_onChange_def ySlider_onChange_def scaleSlider_onChange_def
      resetButton_onClick_def
    using that
    by (intro conjI panelEdit_frame)
      (simp_all add: updateImageTransform_nth resetImageTransform_nth)
  have drag: "unchangedExcept (imageIndex d) s (handleCanvasDragMove clientX clientY s)"
    if "dragState s = Some d"
  proof (cases "isDragging d")
    case True
    show ?thesis
      by (simp add: handleCanvasDragMove_transforms [OF that True] unchangedExcept_def
          updateImageTransform_nth)
  next
    case False
    with that show ?thesis
      by (simp add: handleCanvasDragMove_def unchangedExcept_def)
  qed
  have arr: "\<forall>j<length prev. j \<noteq> index \<longrightarrow>
      updateImageTransform index p prev ! j = prev ! j \<and>
      resetImageTransform index prev ! j = prev ! j"
    by (simp add: updateImageTransform_nth resetImageTransform_nth)
  show ?thesis using panel drag arr by blast
qed

lemma gridDemo_geometry:
  "padding 1080 1080 = 21.6"
  "gap \<lparr>rows = 2, cols = 2, style = Some ''grid''\<rparr> 21.6 = 10.8"
  "cellWidth 1080 1080 \<lparr>rows = 2, cols = 2, style = Some ''grid''\<rparr> = 513"
  "cellHeight 1080 1080 \<lparr>rows = 2, cols = 2, style = Some ''grid''\<rparr> = 513"
  by (simp_all add: padding_def gap_def cellWidth_def cellHeight_def availableWidth_def
      availableHeight_def)

lemma gridDemo_cells: "cells \<lparr>rows = 2, cols = 2, style = Some ''grid''\<rparr> = [(0, 0), (0, 1), (1, 0), (1, 1)]"
  by (simp add: cells_def upt_rec)

lemma gridDemo_hit: "getImageIndexAtPosition gridDemo 69.525 69.525 = 0"
  by (simp add: getImageIndexAtPosition_def gridDemo_def canvasCoord_def gridDemo_cells
      inCell_def cellRect_def gridDemo_geometry)

lemma draggingDemo_eq:
  "draggingDemo = gridDemo
     \<lparr>dragState := Some \<lparr>isDragging = True, imageIndex = 0, startX = 79.525, startY = 89.525,
                          initialTransform = transformA\<rparr>,
      selectedImageIndex := Some 0\<rparr>"
proof -
  have "getImageIndexAtPosition gridDemo (79.525 - 10) (89.525 - 20) = 0"
    using gridDemo_hit by simp
  then show ?thesis
    by (simp add: draggingDemo_def handleCanvasDragStart_def Let_def)
      (simp add: gridDemo_def)
qed

theorem transform_edits_frame_witness:
  "selectedImageIndex selectedDemo = Some 0 \<and>
   images (scaleSlider_onChange 2 selectedDemo) = [''A'', ''B'', ''C''] \<and>
   imageTransforms (scaleSlider_onChange 2 selectedDemo) ! 2 = transformC \<and>
   imageTransforms (resetButton_onClick selectedDemo) ! 1 = defaultTransform \<and>
   dragState draggingDemo =
     Some \<lparr>isDragging = True, imageIndex = 0, startX = 79.525, startY = 89.525,
           initialTransform = transformA\<rparr> \<and>
   imageTransforms (handleCanvasDragMove 100 100 draggingDemo) ! 2 = transformC"
proof -
  let ?d = "\<lparr>isDragging = True, imageIndex = 0, startX = 79.525, startY = 89.525,
           initialTransform = transformA\<rparr>"
  have sel: "selectedImageIndex selectedDemo = Some 0"
    by (simp add: selectedDemo_def)
  have ds: "dragState draggingDemo = Some ?d"
    by (simp add: draggingDemo_eq)
  have ts: "imageTransforms selectedDemo = [transformA, defaultTransform, transformC]"
    "images selectedDemo = [''A'', ''B'', ''C'']"
    "imageTransforms draggingDemo = [transformA, defaultTransform, transformC]"
    by (simp_all add: selectedDemo_def draggingDemo_eq) (simp_all add: gridDemo_def)
  note fr = transform_edits_frame [of selectedDemo 0 2 ?d, unfolded unchangedExcept_def]
  note fd = transform_edits_frame [of draggingDemo 0 2 ?d 100 100, unfolded unchangedExcept_def]
  from fr sel have a: "images (scaleSlider_onChange 2 selectedDemo) = images selectedDemo"
    and b: "\<forall>j<length (imageTransforms selectedDemo). j \<noteq> 0 \<longrightarrow>
         imageTransforms (scaleSlider_onChange 2 selectedDemo) ! j = imageTransforms selectedDemo ! j"
    and c: "\<forall>j<length (imageTransforms selectedDemo). j \<noteq> 0 \<longrightarrow>
         imageTransforms (resetButton_onClick selectedDemo) ! j = imageTransforms selectedDemo ! j"
    by blast+
  from fd ds have d: "\<forall>j<length (imageTransforms draggingDemo). j \<noteq> 0 \<longrightarrow>
         imageTransforms (handleCanvasDragMove 100 100 draggingDemo) ! j =
         imageTransforms draggingDemo ! j"
    by simp
  show ?thesis
    using sel ds a b [rule_format, of 2] c [rule_format, of 1] d [rule_format, of 2]
    by (simp add: ts)
qed

text \<open>
  C4. While a canvas drag is active, a pointer move sets the dragged image's \<open>x\<close> to the
  origin's \<open>x\<close> plus half the pointer's horizontal travel, clamped to \<open>-100 .. 100\<close>,
  likewise its \<open>y\<close>, and leaves its scale and the drag state as they are.
\<close>

theorem handleCanvasDragMove_clamps:
  assumes "dragState s = Some d" "isDragging d" "imageIndex d < length (imageTransforms s)"
  shows "imageTransforms (handleCanvasDragMove clientX clientY s) ! imageIndex d =
      \<lparr>tx = clamp (tx (initialTransform d) + (clientX - startX d) * 0.5) (- 100) 100,
       ty = clamp (ty (initialTransform d) + (clientY - startY d) * 0.5) (- 100) 100,
       scale = scale (imageTransforms s ! imageIndex d)\<rparr> \<and>
    dragState (handleCanvasDragMove clientX clientY s) = dragState s"
  using assms(3)
  by (simp add: handleCanvasDragMove_transforms [OF assms(1,2)] updateImageTransform_nth
      spread_def clamp_max_min)

text \<open>A drag that starts on an image is active, and its image has a transform.\<close>

lemma handleCanvasDragStart_active:
  assumes "dragState s = None" "dragState (handleCanvasDragStart clientX clientY s) = Some d"
  shows "isDragging d \<and> imageIndex d < length (imageTransforms s) \<and>
    initialTransform d = imageTransforms s ! imageIndex d \<and>
    startX d = clientX \<and> startY d = clientY \<and>
    imageTransforms (handleCanvasDragStart clientX clientY s) = imageTransforms s"
  using assms
  by (auto simp: handleCanvasDragStart_def Let_def split: option.splits if_splits)

theorem handleCanvasDragMove_clamps_witness:
  "dragState draggingDemo =
     Some \<lparr>isDragging = True, imageIndex = 0, startX = 79.525, startY = 89.525,
           initialTransform = transformA\<rparr> \<and>
   imageTransforms (handleCanvasDragMove 109.525 (- 410.475) draggingDemo) ! 0 =
     \<lparr>tx = 25, ty = - 100, scale = 1.5\<rparr> \<and>
   imageTransforms (handleCanvasDragMove 1079.525 94.525 draggingDemo) ! 0 =
     \<lparr>tx = 100, ty = - 17.5, scale = 1.5\<rparr>"
proof -
  let ?d = "\<lparr>isDragging = True, imageIndex = 0, startX = 79.525, startY = 89.525,
           initialTransform = transformA\<rparr>"
  have ds: "dragState draggingDemo = Some ?d"
    by (simp add: draggingDemo_eq)
  have act: "isDragging ?d" by simp
  have ts: "imageTransforms draggingDemo = [transformA, defaultTransform, transformC]"
    by (simp add: draggingDemo_eq) (simp add: gridDemo_def)
  have len: "imageIndex ?d < length (imageTransforms draggingDemo)"
    by (simp add: ts)
  show ?thesis
    using handleCanvasDragMove_clamps [OF ds act len, of "109.525" "- 410.475"]
      handleCanvasDragMove_clamps [OF ds act len, of "1079.525" "94.525"] ds
    by (simp add: ts transformA_def clamp_def)
qed

section \<open>Slider edits\<close>

lemma panelEdit_nth:
  assumes "selectedImageIndex s = Some i" "i < length (imageTransforms s)"
  shows "imageTransforms (panelEdit (\<lambda>k. updateImageTransform k p) s) ! i =
    spread (imageTransforms s ! i) p"
  using assms by (simp add: panelEdit_selected updateImageTransform_nth)

text \<open>
  The handlers themselves store the number they are handed and do not clamp it: every bound
  on a slider edit is the bound of the range input that delivers the number.
\<close>

lemma slider_handlers_store_verbatim:
  assumes "selectedImageIndex s = Some i" "i < length (imageTransforms s)"
  shows "imageTransforms (xSlider_onChange v s) ! i = (imageTransforms s ! i)\<lparr>tx := v\<rparr> \<and>
    imageTransforms (ySlider_onChange v s) ! i = (imageTransforms s ! i)\<lparr>ty := v\<rparr> \<and>
    imageTransforms (scaleSlider_onChange v s) ! i = (imageTransforms s ! i)\<lparr>scale := v\<rparr>"
  by (simp add: xSlider_onChange_def ySlider_onChange_def scaleSlider_onChange_def
      panelEdit_nth [OF assms] spread_def)

lemma rangeInput_bounds:
  assumes "lo \<le> hi" "0 < step"
  shows "lo \<le> rangeInput lo hi step v \<and> rangeInput lo hi step v \<le> hi"
proof -
  define c where "c = max lo (min hi v)"
  define k where "k = \<lfloor>(c - lo) / step + 1 / 2\<rfloor>"
  have c: "lo \<le> c" "c \<le> hi" using assms(1) by (simp_all add: c_def)
  have "0 \<le> (c - lo) / step" using c(1) assms(2) by simp
  then have k0: "0 \<le> k" by (simp add: k_def)
  have "of_int k \<le> (c - lo) / step + 1 / 2" by (simp add: k_def)
  then have "step * of_int k \<le> step * ((c - lo) / step + 1 / 2)"
    using assms(2) by (intro mult_left_mono) simp_all
  also have "\<dots> = c - lo + step / 2" using assms(2) by (simp add: distrib_left)
  finally have up: "lo + step * of_int k \<le> c + step / 2" by simp
  have low: "lo \<le> lo + step * of_int k" using k0 assms(2) by simp
  have eq: "rangeInput lo hi step v =
      (if hi < lo + step * of_int k then lo + step * of_int k - step else lo + step * of_int k)"
    by (simp add: rangeInput_def Let_def c_def k_def)
  show ?thesis
  proof (cases "hi < lo + step * of_int k")
    case True
    then have "0 < step * of_int k" using assms(1) by linarith
    then have "0 < k" using assms(2) by (simp add: zero_less_mult_iff)
    then have "1 \<le> (of_int k :: real)" by linarith
    then have "step * 1 \<le> step * of_int k" using assms(2) by (intro mult_left_mono) simp_all
    with True up c assms(2) show ?thesis by (simp add: eq)
  next
    case False
    with low show ?thesis by (simp add: eq)
  qed
qed

lemma rangeInput_scale_3: "rangeInput scaleSliderMin scaleSliderMax scaleSliderStep 3 = 2"
  by (simp add: rangeInput_def scaleSliderMin_def scaleSliderMax_def scaleSliderStep_def Let_def)

text \<open>
  C5. A slider-driven edit writes to the selected image's transform a value within the
  bounds: \<open>x\<close> and \<open>y\<close> end up in \<open>-100 .. 100\<close> (in fact in the sliders' own range
  \<open>-50 .. 50\<close>) and the scale in \<open>0.5 .. 2\<close>, and no other field changes; an attempt to
  set the scale to 3 stores 2. The bounds are those of the range inputs: the handlers store
  the value the input delivers.
\<close>

theorem slider_edits_within_bounds:
  assumes "selectedImageIndex s = Some i" "i < length (imageTransforms s)"
  shows "imageTransforms (xSlider_input v s) ! i =
      (imageTransforms s ! i)
        \<lparr>tx := rangeInput positionSliderMin positionSliderMax positionSliderStep v\<rparr> \<and>
    imageTransforms (ySlider_input v s) ! i =
      (imageTransforms s ! i)
        \<lparr>ty := rangeInput positionSliderMin positionSliderMax positionSliderStep v\<rparr> \<and>
    imageTransforms (scaleSlider_input v s) ! i =
      (imageTransforms s ! i)
        \<lparr>scale := rangeInput scaleSliderMin scaleSliderMax scaleSliderStep v\<rparr> \<and>
    - 100 \<le> tx (imageTransforms (xSlider_input v s) ! i) \<and>
    tx (imageTransforms (xSlider_input v s) ! i) \<le> 100 \<and>
    - 100 \<le> ty (imageTransforms (ySlider_input v s) ! i) \<and>
    ty (imageTransforms (ySlider_input v s) ! i) \<le> 100 \<and>
    0.5 \<le> scale (imageTransforms (scaleSlider_input v s) ! i) \<and>
    scale (imageTransforms (scaleSlider_input v s) ! i) \<le> 2 \<and>
    scale (imageTransforms (scaleSlider_input 3 s) ! i) = 2 \<and>
    (positionSliderMin \<le> v \<and> v \<le> positionSliderMax \<longrightarrow>
       - 100 \<le> tx (imageTransforms (xSlider_onChange v s) ! i) \<and>
       tx (imageTransforms (xSlider_onChange v s) ! i) \<le> 100 \<and>
       - 100 \<le> ty (imageTransforms (ySlider_onChange v s) ! i) \<and>
       ty (imageTransforms (ySlider_onChange v s) ! i) \<le> 100) \<and>
    (scaleSliderMin \<le> v \<and> v \<le> scaleSliderMax \<longrightarrow>
       0.5 \<le> scale (imageTransforms (scaleSlider_onChange v s) ! i) \<and>
       scale (imageTransforms (scaleSlider_onChange v s) ! i) \<le> 2)"
proof -
  have pos: "- 50 \<le> rangeInput positionSliderMin positionSliderMax positionSliderStep v \<and>
      rangeInput positionSliderMin positionSliderMax positionSliderStep v \<le> 50"
    using rangeInput_bounds [of positionSliderMin positionSliderMax positionSliderStep v]
    by (simp add: positionSliderMin_def positionSliderMax_def positionSliderStep_def)
  have sc: "0.5 \<le> rangeInput scaleSliderMin scaleSliderMax scaleSliderStep v \<and>
      rangeInput scaleSliderMin scaleSliderMax scaleSliderStep v \<le> 2"
    using rangeInput_bounds [of scaleSliderMin scaleSliderMax scaleSliderStep v]
    by (simp add: scaleSliderMin_def scaleSliderMax_def scaleSliderStep_def)
  have stored: "imageTransforms (xSlider_onChange u s) ! i = (imageTransforms s ! i)\<lparr>tx := u\<rparr>"
    "imageTransforms (ySlider_onChange u s) ! i = (imageTransforms s ! i)\<lparr>ty := u\<rparr>"
    "imageTransforms (scaleSlider_onChange u s) ! i = (imageTransforms s ! i)\<lparr>scale := u\<rparr>"
    for u
    by (simp_all add: xSlider_onChange_def ySlider_onChange_def scaleSlider_onChange_def
        panelEdit_nth [OF assms] spread_def)
  have delivered: "(positionSliderMin \<le> v \<and> v \<le> positionSliderMax \<longrightarrow>
       - 100 \<le> tx (imageTransforms (xSlider_onChange v s) ! i) \<and>
       tx (imageTransforms (xSlider_onChange v s) ! i) \<le> 100 \<and>
       - 100 \<le> ty (imageTransforms (ySlider_onChange v s) ! i) \<and>
       ty (imageTransforms (ySlider_onChange v s) ! i) \<le> 100) \<and>
    (scaleSliderMin \<le> v \<and> v \<le> scaleSliderMax \<longrightarrow>
       0.5 \<le> scale (imageTransforms (scaleSlider_onChange v s) ! i) \<and>
       scale (imageTransforms (scaleSlider_onChange v s) ! i) \<le> 2)"
    by (simp add: stored positionSliderMin_def positionSliderMax_def scaleSliderMin_def
        scaleSliderMax_def)
  have three: "scale (imageTransforms (scaleSlider_input 3 s) ! i) = 2"
    by (simp add: scaleSlider_input_def stored rangeInput_scale_3)
  show ?thesis
    using pos sc delivered three
    by (simp add: xSlider_input_def ySlider_input_def scaleSlider_input_def stored)
qed

theorem slider_edits_within_bounds_witness:
  "selectedImageIndex selectedDemo = Some 0 \<and>
   0 < length (imageTransforms selectedDemo) \<and>
   imageTransforms (scaleSlider_input 3 selectedDemo) ! 0 = \<lparr>tx = 10, ty = - 20, scale = 2\<rparr> \<and>
   imageTransforms (xSlider_input 80 selectedDemo) ! 0 = \<lparr>tx = 50, ty = - 20, scale = 1.5\<rparr> \<and>
   imageTransforms (ySlider_input (- 12.4) selectedDemo) ! 0 =
     \<lparr>tx = 10, ty = - 12, scale = 1.5\<rparr> \<and>
   scaleSliderMin \<le> 1.2 \<and> 1.2 \<le> scaleSliderMax \<and>
   scale (imageTransforms (scaleSlider_onChange 1.2 selectedDemo) ! 0) \<le> 2"
proof -
  have sel: "selectedImageIndex selectedDemo = Some 0"
    and len: "0 < length (imageTransforms selectedDemo)"
    and t0: "imageTransforms selectedDemo ! 0 = transformA"
    by (simp_all add: selectedDemo_def) (simp_all add: gridDemo_def)
  have r: "rangeInput scaleSliderMin scaleSliderMax scaleSliderStep 3 = 2"
    "rangeInput positionSliderMin positionSliderMax positionSliderStep 80 = 50"
    "rangeInput positionSliderMin positionSliderMax positionSliderStep (- 12.4) = - 12"
    by (simp_all add: rangeInput_def scaleSliderMin_def scaleSliderMax_def scaleSliderStep_def
        positionSliderMin_def positionSliderMax_def positionSliderStep_def Let_def)
  have rng: "scaleSliderMin \<le> 1.2 \<and> 1.2 \<le> scaleSliderMax"
    by (simp add: scaleSliderMin_def scaleSliderMax_def)
  from slider_edits_within_bounds [OF sel len, of 3]
  have a: "imageTransforms (scaleSlider_input 3 selectedDemo) ! 0 =
      (imageTransforms selectedDemo ! 0)
        \<lparr>scale := rangeInput scaleSliderMin scaleSliderMax scaleSliderStep 3\<rparr>"
    by blast
  from slider_edits_within_bounds [OF sel len, of 80]
  have b: "imageTransforms (xSlider_input 80 selectedDemo) ! 0 =
      (imageTransforms selectedDemo ! 0)
        \<lparr>tx := rangeInput positionSliderMin positionSliderMax positionSliderStep 80\<rparr>"
    by blast
  from slider_edits_within_bounds [OF sel len, of "- 12.4"]
  have c: "imageTransforms (ySlider_input (- 12.4) selectedDemo) ! 0 =
      (imageTransforms selectedDemo ! 0)
        \<lparr>ty := rangeInput positionSliderMin positionSliderMax positionSliderStep (- 12.4)\<rparr>"
    by blast
  from slider_edits_within_bounds [OF sel len, of "1.2"] rng
  have d: "scale (imageTransforms (scaleSlider_onChange 1.2 selectedDemo) ! 0) \<le> 2"
    by blast
  have a': "imageTransforms (scaleSlider_input 3 selectedDemo) ! 0 =
      \<lparr>tx = 10, ty = - 20, scale = 2\<rparr>"
    using a r(1) t0 by (simp add: transformA_def)
  have b': "imageTransforms (xSlider_input 80 selectedDemo) ! 0 =
      \<lparr>tx = 50, ty = - 20, scale = 1.5\<rparr>"
    using b r(2) t0 by (simp add: transformA_def)
  have c': "imageTransforms (ySlider_input (- 12.4) selectedDemo) ! 0 =
      \<lparr>tx = 10, ty = - 12, scale = 1.5\<rparr>"
    using c r(3) t0 by (simp add: transformA_def)
  show ?thesis
    using sel len rng d a' b' c' by simp
qed

section \<open>Reordering\<close>

lemma moveItem_in_range:
  "i < length xs \<Longrightarrow>
   moveItem i j xs = Some (spliceIn j (xs ! i) (take i xs @ drop (Suc i) xs))"
  by (simp add: moveItem_def spliceOut_def)

lemma moveItem_out_of_range: "length xs \<le> i \<Longrightarrow> moveItem i j xs = None"
  by (simp add: moveItem_def spliceOut_def)

lemma mset_spliceIn: "mset (spliceIn j v xs) = add_mset v (mset xs)"
proof -
  have "mset (take j xs) + mset (drop j xs) = mset xs"
    by (metis append_take_drop_id mset_append)
  then show ?thesis by (simp add: spliceIn_def)
qed

lemma mset_without_nth:
  assumes "i < length xs"
  shows "add_mset (xs ! i) (mset (take i xs @ drop (Suc i) xs)) = mset xs"
proof -
  have "xs = take i xs @ xs ! i # drop (Suc i) xs"
    using assms by (rule id_take_nth_drop)
  then have "mset xs = mset (take i xs @ xs ! i # drop (Suc i) xs)" by simp
  then show ?thesis by simp
qed

lemma spliceIn_nth: "j \<le> length xs \<Longrightarrow> spliceIn j v xs ! j = v"
  by (simp add: spliceIn_def nth_append)

lemma zip_spliceIn:
  "length xs = length ys \<Longrightarrow>
   zip (spliceIn j a xs) (spliceIn j b ys) = spliceIn j (a, b) (zip xs ys)"
  by (simp add: spliceIn_def take_zip drop_zip)

lemma zip_without_nth:
  "length xs = length ys \<Longrightarrow>
   zip (take i xs @ drop (Suc i) xs) (take i ys @ drop (Suc i) ys) =
   take i (zip xs ys) @ drop (Suc i) (zip xs ys)"
  by (simp add: take_zip drop_zip)

lemma moved_mset:
  "i < length xs \<Longrightarrow>
   mset (spliceIn j (xs ! i) (take i xs @ drop (Suc i) xs)) = mset xs"
  using mset_without_nth [of i xs] by (simp only: mset_spliceIn)

lemma moved_zip:
  assumes "length xs = length ys" "i < length xs"
  shows "zip (spliceIn j (xs ! i) (take i xs @ drop (Suc i) xs))
             (spliceIn j (ys ! i) (take i ys @ drop (Suc i) ys)) =
         spliceIn j (zip xs ys ! i) (take i (zip xs ys) @ drop (Suc i) (zip xs ys))"
proof -
  have "length (take i xs @ drop (Suc i) xs) = length (take i ys @ drop (Suc i) ys)"
    using assms(1) by simp
  then show ?thesis
    using assms by (simp only: zip_spliceIn zip_without_nth nth_zip)
qed

text \<open>
  C3. A thumbnail drag from position \<open>i\<close> to a different position \<open>j\<close> removes the image at
  \<open>i\<close> and inserts it at \<open>j\<close>; the images are the same as a multiset; the transform array
  undergoes the same move, so the pairs of image and transform are the same as a multiset and
  the moved image arrives at \<open>j\<close> with its transform. A drop on \<open>i = j\<close> changes neither array.
\<close>

theorem handleDragEnd_moves_image_with_transform:
  assumes "dragIndex s = Some i" "dropIndex s = Some j"
    "i < length (images s)" "j < length (images s)"
    "length (imageTransforms s) = length (images s)"
  shows "(i \<noteq> j \<longrightarrow>
      (\<exists>s'. handleDragEnd s = Some s' \<and>
         images s' = spliceIn j (images s ! i) (take i (images s) @ drop (Suc i) (images s)) \<and>
         imageTransforms s' =
           spliceIn j (imageTransforms s ! i)
             (take i (imageTransforms s) @ drop (Suc i) (imageTransforms s)) \<and>
         mset (images s') = mset (images s) \<and>
         mset (zip (images s') (imageTransforms s')) =
           mset (zip (images s) (imageTransforms s)) \<and>
         images s' ! j = images s ! i \<and>
         imageTransforms s' ! j = imageTransforms s ! i \<and>
         dragIndex s' = None \<and> dropIndex s' = None)) \<and>
    (i = j \<longrightarrow> handleDragEnd s = Some (s\<lparr>dragIndex := None, dropIndex := None\<rparr>))"
proof -
  let ?xs = "images s" and ?ts = "imageTransforms s"
  let ?xs' = "spliceIn j (?xs ! i) (take i ?xs @ drop (Suc i) ?xs)"
  let ?ts' = "spliceIn j (?ts ! i) (take i ?ts @ drop (Suc i) ?ts)"
  let ?s' = "s\<lparr>images := ?xs', imageTransforms := ?ts', dragIndex := None, dropIndex := None\<rparr>"
  have it: "i < length ?ts" using assms(3,5) by simp
  have moved: "handleDragEnd s = Some ?s'" if "i \<noteq> j"
    using that assms(1,2)
    by (simp add: handleDragEnd_def moveItem_in_range [OF assms(3)] moveItem_in_range [OF it])
  have m1: "mset ?xs' = mset ?xs"
    using assms(3) by (rule moved_mset)
  have "zip ?xs' ?ts' =
      spliceIn j (zip ?xs ?ts ! i) (take i (zip ?xs ?ts) @ drop (Suc i) (zip ?xs ?ts))"
    using assms(5) [symmetric] assms(3) by (rule moved_zip)
  moreover have "i < length (zip ?xs ?ts)" using assms(3,5) by simp
  ultimately have m2: "mset (zip ?xs' ?ts') = mset (zip ?xs ?ts)"
    by (simp only: moved_mset)
  have "j \<le> length (take i ?xs @ drop (Suc i) ?xs)" "j \<le> length (take i ?ts @ drop (Suc i) ?ts)"
    using assms(3,4,5) by simp_all
  then have n: "?xs' ! j = ?xs ! i" "?ts' ! j = ?ts ! i"
    by (simp_all only: spliceIn_nth)
  have same: "handleDragEnd s = Some (s\<lparr>dragIndex := None, dropIndex := None\<rparr>)" if "i = j"
    using that assms(1,2) by (simp add: handleDragEnd_def)
  show ?thesis
  proof (intro conjI impI)
    assume "i \<noteq> j"
    then have "handleDragEnd s = Some ?s'" by (rule moved)
    then show "\<exists>s'. handleDragEnd s = Some s' \<and>
         images s' = ?xs' \<and> imageTransforms s' = ?ts' \<and>
         mset (images s') = mset (images s) \<and>
         mset (zip (images s') (imageTransforms s')) =
           mset (zip (images s) (imageTransforms s)) \<and>
         images s' ! j = images s ! i \<and>
         imageTransforms s' ! j = imageTransforms s ! i \<and>
         dragIndex s' = None \<and> dropIndex s' = None"
      using m1 m2 n by (intro exI [of _ ?s']) simp
  next
    assume "i = j"
    then show "handleDragEnd s = Some (s\<lparr>dragIndex := None, dropIndex := None\<rparr>)"
      by (rule same)
  qed
qed

theorem handleDragEnd_moves_image_with_transform_witness:
  "dragIndex reorderDemo = Some 0 \<and> dropIndex reorderDemo = Some 2 \<and>
   images reorderDemo = [''A'', ''B'', ''C''] \<and>
   length (imageTransforms reorderDemo) = length (images reorderDemo) \<and>
   map_option images (handleDragEnd reorderDemo) = Some [''B'', ''C'', ''A''] \<and>
   map_option imageTransforms (handleDragEnd reorderDemo) =
     Some [defaultTransform, transformC, transformA]"
proof -
  have d: "dragIndex reorderDemo = Some 0" "dropIndex reorderDemo = Some 2"
    and xs: "images reorderDemo = [''A'', ''B'', ''C'']"
    and ts: "imageTransforms reorderDemo = [transformA, defaultTransform, transformC]"
    by (simp_all add: reorderDemo_def handleDrop_def handleDragStart_def)
      (simp_all add: gridDemo_def)
  have r: "0 < length (images reorderDemo)" "2 < length (images reorderDemo)"
    "length (imageTransforms reorderDemo) = length (images reorderDemo)"
    by (simp_all add: xs ts)
  from handleDragEnd_moves_image_with_transform [OF d r]
  obtain s' where "handleDragEnd reorderDemo = Some s'"
    and "images s' = spliceIn 2 (images reorderDemo ! 0)
           (take 0 (images reorderDemo) @ drop (Suc 0) (images reorderDemo))"
    and "imageTransforms s' = spliceIn 2 (imageTransforms reorderDemo ! 0)
           (take 0 (imageTransforms reorderDemo) @ drop (Suc 0) (imageTransforms reorderDemo))"
    by auto
  then show ?thesis
    using d by (simp add: xs ts spliceIn_def)
qed

section \<open>Properties of the hit test\<close>

lemma set_cells: "set (cells t) = {(row, col). row < rows t \<and> col < cols t}"
  by (auto simp: cells_def)

lemma find_unique:
  assumes "x \<in> set xs" "P x" "\<And>y. y \<in> set xs \<Longrightarrow> P y \<Longrightarrow> y = x"
  shows "find P xs = Some x"
proof (cases "find P xs")
  case None
  with assms(1,2) show ?thesis by (simp add: find_None_iff)
next
  case (Some y)
  then have "y \<in> set xs \<and> P y"
    by (auto simp: find_Some_iff)
  with assms(3) Some show ?thesis by simp
qed

lemma canvasCoord_shown:
  "0 < offset \<Longrightarrow> extent \<noteq> 0 \<Longrightarrow> canvasCoord v offset extent = Some (v / (real offset / extent))"
  by (simp add: canvasCoord_def)

lemma getImageIndexAtPosition_shown:
  assumes "canvasRect s = Some r0" "canvas s = Some c"
    "0 < offsetWidth c" "0 < offsetHeight c" "0 < outputW s" "0 < outputH s"
  shows "getImageIndexAtPosition s x y =
    (case find (\<lambda>(row, col). \<not> row * cols (template s) + col \<ge> length (images s) \<and>
                  inCell (x / scaleX s c) (y / scaleY s c) (cellOf s row col))
            (cells (template s)) of
       Some (row, col) \<Rightarrow> int (row * cols (template s) + col)
     | None \<Rightarrow> - 1)"
  using assms
  by (simp add: getImageIndexAtPosition_def canvasCoord_shown scaleX_def scaleY_def cellOf_def)

lemma center_inCell:
  "0 \<le> rect_w r \<Longrightarrow> 0 \<le> rect_h r \<Longrightarrow> inCell (centerX r) (centerY r) r"
  by (simp add: inCell_def centerX_def centerY_def)

lemma hit_center:
  assumes env: "canvasRect s = Some r0" "canvas s = Some c"
    "0 < offsetWidth c" "0 < offsetHeight c" "0 < outputW s" "0 < outputH s"
    and room: "0 \<le> cellWidth (outputW s) (outputH s) (template s)"
    "0 \<le> cellHeight (outputW s) (outputH s) (template s)"
    and cell: "row < rows (template s)" "col < cols (template s)"
    "row * cols (template s) + col < length (images s)"
  shows "getImageIndexAtPosition s (centerX (cellOf s row col) * scaleX s c)
           (centerY (cellOf s row col) * scaleY s c) = int (row * cols (template s) + col)"
proof -
  let ?r = "cellOf s row col"
  let ?P = "\<lambda>(row, col). \<not> row * cols (template s) + col \<ge> length (images s) \<and>
      inCell (centerX ?r * scaleX s c / scaleX s c) (centerY ?r * scaleY s c / scaleY s c)
        (cellOf s row col)"
  have sx: "scaleX s c \<noteq> 0" and sy: "scaleY s c \<noteq> 0"
    using env(3-6) by (simp_all add: scaleX_def scaleY_def)
  have cancel: "centerX ?r * scaleX s c / scaleX s c = centerX ?r"
    "centerY ?r * scaleY s c / scaleY s c = centerY ?r"
    using sx sy by simp_all
  have inside: "inCell (centerX ?r) (centerY ?r) ?r"
    using room by (intro center_inCell) (simp_all add: cellOf_def cellRect_def)
  have mem: "(row, col) \<in> set (cells (template s))"
    using cell(1,2) by (simp add: set_cells)
  have here: "?P (row, col)"
    using cell(3) inside by (simp add: cancel)
  have only: "y = (row, col)" if "y \<in> set (cells (template s))" "?P y" for y
  proof (rule ccontr)
    assume ne: "y \<noteq> (row, col)"
    obtain row' col' where y: "y = (row', col')" by (cases y)
    from that(2) have "inCell (centerX ?r) (centerY ?r) (cellOf s row' col')"
      by (simp add: y cancel)
    moreover have "\<not> inCell (centerX ?r) (centerY ?r) (cellOf s row' col')"
      unfolding cellOf_def
      using env(5,6) room _ inside [unfolded cellOf_def]
    proof (rule cellRect_disjoint)
      show "(row, col) \<noteq> (row', col')" using ne y by auto
    qed
    ultimately show False by simp
  qed
  have "find ?P (cells (template s)) = Some (row, col)"
    using mem here only by (rule find_unique)
  then show ?thesis
    by (simp add: getImageIndexAtPosition_shown [OF env])
qed

text \<open>In exact arithmetic the same holds of every point of the cell, not only its centre.\<close>

lemma hit_in_cell:
  assumes env: "canvasRect s = Some r0" "canvas s = Some c"
    "0 < offsetWidth c" "0 < offsetHeight c" "0 < outputW s" "0 < outputH s"
    and room: "0 \<le> cellWidth (outputW s) (outputH s) (template s)"
    "0 \<le> cellHeight (outputW s) (outputH s) (template s)"
    and cell: "row < rows (template s)" "col < cols (template s)"
    "row * cols (template s) + col < length (images s)"
    and inside: "inCell (x / scaleX s c) (y / scaleY s c) (cellOf s row col)"
  shows "getImageIndexAtPosition s x y = int (row * cols (template s) + col)"
proof -
  let ?P = "\<lambda>(row, col). \<not> row * cols (template s) + col \<ge> length (images s) \<and>
      inCell (x / scaleX s c) (y / scaleY s c) (cellOf s row col)"
  have mem: "(row, col) \<in> set (cells (template s))"
    using cell(1,2) by (simp add: set_cells)
  have here: "?P (row, col)"
    using cell(3) inside by simp
  have only: "z = (row, col)" if "z \<in> set (cells (template s))" "?P z" for z
  proof (rule ccontr)
    assume ne: "z \<noteq> (row, col)"
    obtain row' col' where z: "z = (row', col')" by (cases z)
    from that(2) have "inCell (x / scaleX s c) (y / scaleY s c) (cellOf s row' col')"
      by (simp add: z)
    moreover have "\<not> inCell (x / scaleX s c) (y / scaleY s c) (cellOf s row' col')"
      unfolding cellOf_def
      using env(5,6) room _ inside [unfolded cellOf_def]
    proof (rule cellRect_disjoint)
      show "(row, col) \<noteq> (row', col')" using ne z by auto
    qed
    ultimately show False by simp
  qed
  have "find ?P (cells (template s)) = Some (row, col)"
    using mem here only by (rule find_unique)
  then show ?thesis
    by (simp add: getImageIndexAtPosition_shown [OF env])
qed

lemma hit_none:
  assumes env: "canvasRect s = Some r0" "canvas s = Some c"
    "0 < offsetWidth c" "0 < offsetHeight c" "0 < outputW s" "0 < outputH s"
    and none: "\<And>row col. row < rows (template s) \<Longrightarrow> col < cols (template s) \<Longrightarrow>
      row * cols (template s) + col < length (images s) \<Longrightarrow>
      \<not> inCell (x / scaleX s c) (y / scaleY s c) (cellOf s row col)"
  shows "getImageIndexAtPosition s x y = - 1"
proof -
  have "find (\<lambda>(row, col). \<not> row * cols (template s) + col \<ge> length (images s) \<and>
                  inCell (x / scaleX s c) (y / scaleY s c) (cellOf s row col))
            (cells (template s)) = None"
    using none by (auto simp: find_None_iff set_cells)
  then show ?thesis
    by (simp add: getImageIndexAtPosition_shown [OF env])
qed

lemma hit_empty_cell:
  assumes env: "canvasRect s = Some r0" "canvas s = Some c"
    "0 < offsetWidth c" "0 < offsetHeight c" "0 < outputW s" "0 < outputH s"
    and room: "0 \<le> cellWidth (outputW s) (outputH s) (template s)"
    "0 \<le> cellHeight (outputW s) (outputH s) (template s)"
    and cell: "length (images s) \<le> row * cols (template s) + col"
    "inCell (x / scaleX s c) (y / scaleY s c) (cellOf s row col)"
  shows "getImageIndexAtPosition s x y = - 1"
  using env
proof (rule hit_none)
  fix row' col'
  assume "row' * cols (template s) + col' < length (images s)"
  with cell(1) have "(row, col) \<noteq> (row', col')" by auto
  with env(5,6) room show "\<not> inCell (x / scaleX s c) (y / scaleY s c) (cellOf s row' col')"
    unfolding cellOf_def using cell(2) [unfolded cellOf_def] by (rule cellRect_disjoint)
qed

text \<open>Cells of negative width or height contain no point, so no hit test finds an image.\<close>

lemma inCell_negative:
  "rect_w r < 0 \<or> rect_h r < 0 \<Longrightarrow> \<not> inCell px py r"
  by (auto simp: inCell_def)

lemma hit_negative_cells:
  assumes "cellWidth (outputW s) (outputH s) (template s) < 0 \<or>
    cellHeight (outputW s) (outputH s) (template s) < 0"
  shows "getImageIndexAtPosition s x y = - 1"
proof -
  have no: "\<not> inCell px py (cellRect (outputW s) (outputH s) (template s) row col)"
    for px py row col
    using assms by (intro inCell_negative) (simp add: cellRect_def)
  have "find (\<lambda>(row, col). \<not> row * cols (template s) + col \<ge> length (images s) \<and>
                  inCell px py (cellRect (outputW s) (outputH s) (template s) row col))
            (cells (template s)) = None" for px py
    using no by (auto simp: find_None_iff)
  then show ?thesis
    by (simp add: getImageIndexAtPosition_def split: option.splits)
qed

lemma gridDemo_cellOf:
  "cellOf gridDemo row col =
     \<lparr>rect_x = 21.6 + real col * 523.8, rect_y = 21.6 + real row * 523.8,
      rect_w = 513, rect_h = 513\<rparr>"
  by (simp add: cellOf_def gridDemo_def cellRect_def cellWidth_def cellHeight_def
      availableWidth_def availableHeight_def padding_def gap_def)

text \<open>
  The claim C6 as stated fails on a grid whose cells come out with a negative width: in the
  row of 26 polaroid cells that holds 26 images, the centre of the first cell resolves to no
  image.
\<close>

theorem hit_test_center_counterexample:
  "0 < rows (template wideDemo) \<and> 0 < cols (template wideDemo) \<and>
   0 * cols (template wideDemo) + 0 < length (images wideDemo) \<and>
   canvas wideDemo = Some \<lparr>hasContext = True, offsetWidth = 270, offsetHeight = 270\<rparr> \<and>
   getImageIndexAtPosition wideDemo
     (centerX (cellOf wideDemo 0 0) *
        scaleX wideDemo \<lparr>hasContext = True, offsetWidth = 270, offsetHeight = 270\<rparr>)
     (centerY (cellOf wideDemo 0 0) *
        scaleY wideDemo \<lparr>hasContext = True, offsetWidth = 270, offsetHeight = 270\<rparr>) = - 1"
proof -
  have t: "template wideDemo = polaroid1x26" "outputW wideDemo = 1080" "outputH wideDemo = 1080"
    "length (images wideDemo) = 26"
    "canvas wideDemo = Some \<lparr>hasContext = True, offsetWidth = 270, offsetHeight = 270\<rparr>"
    by (simp_all add: wideDemo_def) (simp_all add: gridDemo_def)
  have "cellWidth (outputW wideDemo) (outputH wideDemo) (template wideDemo) < 0"
    by (simp add: t) (simp add: cellWidth_def availableWidth_def padding_def gap_def polaroid1x26_def)
  then have "getImageIndexAtPosition wideDemo x y = - 1" for x y
    by (intro hit_negative_cells) simp
  then show ?thesis
    by (simp add: t) (simp add: polaroid1x26_def)
qed

text \<open>
  C6, as amended. Let the canvas be measured and displayed with a positive extent, the
  output size be positive, and the cell width and height be positive. Then the screen point
  that maps to the centre of cell \<open>(row, col)\<close> resolves to the index \<open>row * cols + col\<close>
  whenever that index is below the number of images; a point that lies in no cell, and a point on a cell whose index is not below the
  number of images, resolve to \<open>-1\<close>; and a pointer-down that resolves to \<open>-1\<close> leaves the
  state as it is. For output sizes in whole pixels a positive cell width is at least a
  hundredth of a pixel divided by the number of columns, far above the rounding errors of the
  source's binary64 numbers.
\<close>

theorem hit_test_inverts_placement:
  assumes "canvasRect s = Some r0" "canvas s = Some c"
    "0 < offsetWidth c" "0 < offsetHeight c" "0 < outputW s" "0 < outputH s"
    "0 < cellWidth (outputW s) (outputH s) (template s)"
    "0 < cellHeight (outputW s) (outputH s) (template s)"
  shows "(\<forall>row<rows (template s). \<forall>col<cols (template s).
       row * cols (template s) + col < length (images s) \<longrightarrow>
       getImageIndexAtPosition s (centerX (cellOf s row col) * scaleX s c)
         (centerY (cellOf s row col) * scaleY s c) = int (row * cols (template s) + col)) \<and>
    (\<forall>x y. (\<forall>row<rows (template s). \<forall>col<cols (template s).
              \<not> inCell (x / scaleX s c) (y / scaleY s c) (cellOf s row col)) \<longrightarrow>
           getImageIndexAtPosition s x y = - 1) \<and>
    (\<forall>x y row col. length (images s) \<le> row * cols (template s) + col \<and>
           inCell (x / scaleX s c) (y / scaleY s c) (cellOf s row col) \<longrightarrow>
           getImageIndexAtPosition s x y = - 1) \<and>
    (\<forall>clientX clientY.
       getImageIndexAtPosition s (clientX - rect_left r0) (clientY - rect_top r0) = - 1 \<longrightarrow>
       handleCanvasDragStart clientX clientY s = s)"
proof -
  note env = assms(1-6)
  have room: "0 \<le> cellWidth (outputW s) (outputH s) (template s)"
    "0 \<le> cellHeight (outputW s) (outputH s) (template s)"
    using assms(7,8) by simp_all
  have a: "\<forall>row<rows (template s). \<forall>col<cols (template s).
       row * cols (template s) + col < length (images s) \<longrightarrow>
       getImageIndexAtPosition s (centerX (cellOf s row col) * scaleX s c)
         (centerY (cellOf s row col) * scaleY s c) = int (row * cols (template s) + col)"
    using hit_center [OF env room] by blast
  have b: "\<forall>x y. (\<forall>row<rows (template s). \<forall>col<cols (template s).
              \<not> inCell (x / scaleX s c) (y / scaleY s c) (cellOf s row col)) \<longrightarrow>
           getImageIndexAtPosition s x y = - 1"
    using hit_none [OF env] by blast
  have c: "\<forall>x y row col. length (images s) \<le> row * cols (template s) + col \<and>
           inCell (x / scaleX s c) (y / scaleY s c) (cellOf s row col) \<longrightarrow>
           getImageIndexAtPosition s x y = - 1"
    using hit_empty_cell [OF env room] by blast
  have d: "\<forall>clientX clientY.
       getImageIndexAtPosition s (clientX - rect_left r0) (clientY - rect_top r0) = - 1 \<longrightarrow>
       handleCanvasDragStart clientX clientY s = s"
    using assms(1) by (simp add: handleCanvasDragStart_def)
  show ?thesis using a b c d by blast
qed

theorem hit_test_inverts_placement_witness:
  "canvasRect gridDemo = Some \<lparr>rect_left = 10, rect_top = 20\<rparr> \<and>
   canvas gridDemo = Some \<lparr>hasContext = True, offsetWidth = 270, offsetHeight = 270\<rparr> \<and>
   0 < outputW gridDemo \<and> 0 < outputH gridDemo \<and>
   0 < cellWidth (outputW gridDemo) (outputH gridDemo) (template gridDemo) \<and>
   0 < cellHeight (outputW gridDemo) (outputH gridDemo) (template gridDemo) \<and>
   length (images gridDemo) = 3 \<and>
   getImageIndexAtPosition gridDemo 200.475 69.525 = 1 \<and>
   getImageIndexAtPosition gridDemo 200.475 200.475 = - 1 \<and>
   handleCanvasDragStart 210.475 220.475 gridDemo = gridDemo"
proof -
  let ?c = "\<lparr>hasContext = True, offsetWidth = 270, offsetHeight = 270\<rparr>"
  let ?r0 = "\<lparr>rect_left = 10, rect_top = 20\<rparr>"
  have f: "canvasRect gridDemo = Some ?r0" "canvas gridDemo = Some ?c"
    "outputW gridDemo = 1080" "outputH gridDemo = 1080"
    "template gridDemo = \<lparr>rows = 2, cols = 2, style = Some ''grid''\<rparr>"
    "length (images gridDemo) = 3"
    by (simp_all add: gridDemo_def)
  have env: "0 < offsetWidth ?c" "0 < offsetHeight ?c" "0 < outputW gridDemo" "0 < outputH gridDemo"
    "0 < cellWidth (outputW gridDemo) (outputH gridDemo) (template gridDemo)"
    "0 < cellHeight (outputW gridDemo) (outputH gridDemo) (template gridDemo)"
    by (simp_all add: f gridDemo_geometry)
  note g = hit_test_inverts_placement [OF f(1,2) env]
  have sc: "scaleX gridDemo ?c = 1 / 4" "scaleY gridDemo ?c = 1 / 4"
    by (simp_all add: scaleX_def scaleY_def f)
  have c01: "centerX (cellOf gridDemo 0 (Suc 0)) = 801.9"
    "centerY (cellOf gridDemo 0 (Suc 0)) = 278.1"
    by (simp_all add: centerX_def centerY_def gridDemo_cellOf)
  have c11: "cellOf gridDemo (Suc 0) (Suc 0) = \<lparr>rect_x = 545.4, rect_y = 545.4, rect_w = 513, rect_h = 513\<rparr>"
    by (simp add: gridDemo_cellOf)
  from g have g1: "\<forall>row<rows (template gridDemo). \<forall>col<cols (template gridDemo).
       row * cols (template gridDemo) + col < length (images gridDemo) \<longrightarrow>
       getImageIndexAtPosition gridDemo (centerX (cellOf gridDemo row col) * scaleX gridDemo ?c)
         (centerY (cellOf gridDemo row col) * scaleY gridDemo ?c) =
       int (row * cols (template gridDemo) + col)"
    by blast
  have h1: "getImageIndexAtPosition gridDemo 200.475 69.525 = 1"
    using g1 [rule_format, of 0 1] by (simp add: f c01 sc)
  from g have g3: "\<forall>x y row col. length (images gridDemo) \<le> row * cols (template gridDemo) + col \<and>
           inCell (x / scaleX gridDemo ?c) (y / scaleY gridDemo ?c) (cellOf gridDemo row col) \<longrightarrow>
           getImageIndexAtPosition gridDemo x y = - 1"
    by blast
  have h2: "getImageIndexAtPosition gridDemo 200.475 200.475 = - 1"
    using g3 [rule_format, of 1 1 "200.475" "200.475"] by (simp add: f c11 sc inCell_def)
  from g have g4: "\<forall>clientX clientY.
       getImageIndexAtPosition gridDemo (clientX - rect_left ?r0) (clientY - rect_top ?r0) = - 1 \<longrightarrow>
       handleCanvasDragStart clientX clientY gridDemo = gridDemo"
    by blast
  have h3: "handleCanvasDragStart 210.475 220.475 gridDemo = gridDemo"
    using g4 [rule_format, of "210.475" "220.475"] h2 by simp
  show ?thesis using f env h1 h2 h3 by simp
qed

section \<open>Properties of the render\<close>

lemma cells_index:
  "map (\<lambda>(row, col). row * cols t + col) (cells t) = [0..<rows t * cols t]"
  by (rule nth_equalityI) (simp_all add: cells_length cells_nth)

lemma count_below:
  "sum_list (map (\<lambda>i. if i < m then 1 else 0) [0..<n]) = min m n"
  by (induction n) auto

lemma drawCell_images:
  "length (filter isImage (drawCell random s loaded cell)) =
     (if (case cell of (row, col) \<Rightarrow> row * cols (template s) + col)
           < min (length loaded) (length (imageTransforms s)) then 1 else 0)"
  by (cases cell) (simp add: drawCell_def Let_def isImage_def)

lemma drawCell_placeholders:
  "length (filter isPlaceholder (drawCell random s loaded cell)) =
     1 - length (filter isImage (drawCell random s loaded cell))"
  by (cases cell) (simp add: drawCell_def Let_def isImage_def isPlaceholder_def)

lemma drawCell_no_watermark:
  "filter isWatermark (drawCell random s loaded cell) = []"
  by (cases cell) (simp add: drawCell_def Let_def isWatermark_def)

lemma length_filter_concat:
  "length (filter P (concat xss)) = sum_list (map (\<lambda>xs. length (filter P xs)) xss)"
  by (induction xss) simp_all

lemma cells_images:
  "length (filter isImage (concat (map (drawCell random s loaded) (cells (template s))))) =
     min (min (length loaded) (length (imageTransforms s))) (rows (template s) * cols (template s))"
proof -
  let ?m = "min (length loaded) (length (imageTransforms s))"
  have "length (filter isImage (concat (map (drawCell random s loaded) (cells (template s))))) =
      sum_list (map (\<lambda>i. if i < ?m then 1 else 0)
        (map (\<lambda>(row, col). row * cols (template s) + col) (cells (template s))))"
    by (simp add: length_filter_concat comp_def drawCell_images)
  also have "\<dots> = min ?m (rows (template s) * cols (template s))"
    by (simp only: cells_index count_below)
  finally show ?thesis .
qed

lemma cells_drawn:
  "length (filter isImage (concat (map (drawCell random s loaded) (cells (template s))))) +
   length (filter isPlaceholder (concat (map (drawCell random s loaded) (cells (template s))))) =
   rows (template s) * cols (template s)"
proof -
  have one: "length (filter isImage (drawCell random s loaded cell)) +
      length (filter isPlaceholder (drawCell random s loaded cell)) = 1" for cell
    by (simp add: drawCell_placeholders drawCell_images)
  have "length (filter isImage (concat (map (drawCell random s loaded) cs))) +
      length (filter isPlaceholder (concat (map (drawCell random s loaded) cs))) = length cs" for cs
    using one by (induction cs) (simp_all add: add.assoc add.left_commute)
  then show ?thesis by (simp add: cells_length)
qed

lemma cells_no_watermark:
  "filter isWatermark (concat (map (drawCell random s loaded) cs)) = []"
  by (induction cs) (simp_all add: drawCell_no_watermark)

lemma loadImages_length: "length (loadImages loadImage s) \<le> rows (template s) * cols (template s)"
proof -
  have "length (List.map_filter f xs) \<le> length xs" for f :: "string \<Rightarrow> 'a option" and xs
    by (simp add: map_filter_def)
  from this [of loadImage] show ?thesis
    unfolding loadImages_def by (rule order_trans) simp
qed

lemma loadImages_nonempty:
  "loadImages loadImage s \<noteq> [] \<longleftrightarrow>
   (\<exists>i<min (length (images s)) (rows (template s) * cols (template s)).
      loadImage (images s ! i) \<noteq> None)"
proof -
  let ?xs = "take (min (length (images s)) (rows (template s) * cols (template s))) (images s)"
  have "loadImages loadImage s \<noteq> [] \<longleftrightarrow> (\<exists>x\<in>set ?xs. loadImage x \<noteq> None)"
    by (simp add: loadImages_def map_filter_def filter_empty_conv)
  also have "\<dots> \<longleftrightarrow> (\<exists>i<length ?xs. loadImage (?xs ! i) \<noteq> None)"
    by (metis in_set_conv_nth)
  also have "\<dots> \<longleftrightarrow> (\<exists>i<min (length (images s)) (rows (template s) * cols (template s)).
      loadImage (images s ! i) \<noteq> None)"
    by auto
  finally show ?thesis .
qed

lemma drawCollage_ready:
  "canvas s = Some c \<Longrightarrow> hasContext c \<Longrightarrow>
   drawCollage loadImage random s =
     Background
     # concat (map (drawCell random s (loadImages loadImage s)) (cells (template s)))
     @ (if loadImages loadImage s \<noteq> []
        then [Watermark (outputW s - padding (outputW s) (outputH s))
                (outputH s - padding (outputW s) (outputH s) / 2)]
        else [])"
  by (simp add: drawCollage_def Let_def)

text \<open>
  The claim C9 as stated fails: the watermark depends on the images that loaded, not on the
  images that were drawn. In the render that runs before the transforms are reconciled all
  three images load, every cell shows a placeholder, and the watermark is stamped.
\<close>

theorem watermark_without_image_counterexample:
  "drawCollage loadAll fixedRandom firstRenderDemo =
     [Background,
      Placeholder 1 (cellOf gridDemo 0 0), Placeholder 2 (cellOf gridDemo 0 1),
      Placeholder 3 (cellOf gridDemo 1 0), Placeholder 4 (cellOf gridDemo 1 1),
      Watermark 1058.4 1069.2] \<and>
   loadImages loadAll firstRenderDemo = [''A'', ''B'', ''C'']"
proof -
  have f: "canvas firstRenderDemo = Some \<lparr>hasContext = True, offsetWidth = 270, offsetHeight = 270\<rparr>"
    "template firstRenderDemo = \<lparr>rows = 2, cols = 2, style = Some ''grid''\<rparr>"
    "outputW firstRenderDemo = 1080" "outputH firstRenderDemo = 1080"
    "imageTransforms firstRenderDemo = []" "images firstRenderDemo = [''A'', ''B'', ''C'']"
    by (simp_all add: firstRenderDemo_def) (simp_all add: gridDemo_def)
  have g: "template gridDemo = \<lparr>rows = 2, cols = 2, style = Some ''grid''\<rparr>"
    "outputW gridDemo = 1080" "outputH gridDemo = 1080"
    by (simp_all add: gridDemo_def)
  have l: "loadImages loadAll firstRenderDemo = [''A'', ''B'', ''C'']"
    by (simp add: loadImages_def f map_filter_def loadAll_def)
  show ?thesis
    by (simp add: drawCollage_ready [OF f(1)] l)
      (simp add: f g gridDemo_cells drawCell_def cellOf_def padding_def)
qed

text \<open>
  C9, as amended. A render on a ready canvas stamps the watermark, at the bottom-right
  corner, if and only if at least one of the images it tried to load did load; when none
  loaded, it stamps no watermark. A failed load never aborts the render: each of the
  \<open>rows * cols\<close> cells is drawn, as an image or as a placeholder, and the number of images
  drawn is the number of loaded images that have a transform. So whenever the transform
  array is not empty, the watermark is stamped if and only if an image was drawn.
\<close>

theorem watermark_iff_image_loaded:
  assumes "canvas s = Some c" "hasContext c"
  shows "(filter isWatermark (drawCollage loadImage random s) \<noteq> []) =
      (\<exists>i<min (length (images s)) (rows (template s) * cols (template s)).
         loadImage (images s ! i) \<noteq> None) \<and>
    filter isWatermark (drawCollage loadImage random s) =
      (if loadImages loadImage s = [] then []
       else [Watermark (outputW s - padding (outputW s) (outputH s))
               (outputH s - padding (outputW s) (outputH s) / 2)]) \<and>
    length (filter isImage (drawCollage loadImage random s)) =
      min (length (loadImages loadImage s)) (length (imageTransforms s)) \<and>
    length (filter isImage (drawCollage loadImage random s)) +
      length (filter isPlaceholder (drawCollage loadImage random s)) =
      rows (template s) * cols (template s) \<and>
    (imageTransforms s \<noteq> [] \<longrightarrow>
       (filter isWatermark (drawCollage loadImage random s) \<noteq> []) =
       (filter isImage (drawCollage loadImage random s) \<noteq> []))"
proof -
  let ?ops = "drawCollage loadImage random s"
  let ?loaded = "loadImages loadImage s"
  note eq = drawCollage_ready [OF assms, of loadImage random]
  have w: "filter isWatermark ?ops =
      (if ?loaded = [] then []
       else [Watermark (outputW s - padding (outputW s) (outputH s))
               (outputH s - padding (outputW s) (outputH s) / 2)])"
    by (simp add: eq cells_no_watermark isWatermark_def)
  have i: "length (filter isImage ?ops) = min (length ?loaded) (length (imageTransforms s))"
    using loadImages_length [of loadImage s]
    by (simp add: eq cells_images isImage_def)
  have p: "length (filter isImage ?ops) + length (filter isPlaceholder ?ops) =
      rows (template s) * cols (template s)"
    using cells_drawn [of random s ?loaded]
    by (simp add: eq isImage_def isPlaceholder_def)
  have l: "(filter isWatermark ?ops \<noteq> []) =
      (\<exists>i<min (length (images s)) (rows (template s) * cols (template s)).
         loadImage (images s ! i) \<noteq> None)"
  proof -
    have "(filter isWatermark ?ops \<noteq> []) = (?loaded \<noteq> [])" by (simp add: w)
    then show ?thesis by (simp only: loadImages_nonempty)
  qed
  have d: "(filter isWatermark ?ops \<noteq> []) = (filter isImage ?ops \<noteq> [])"
    if "imageTransforms s \<noteq> []"
  proof -
    have "(filter isImage ?ops \<noteq> []) = (0 < length (filter isImage ?ops))" by simp
    also have "\<dots> = (?loaded \<noteq> [])" using that by (simp add: i)
    also have "\<dots> = (filter isWatermark ?ops \<noteq> [])" by (simp add: w)
    finally show ?thesis by simp
  qed
  show ?thesis using w i p l d by blast
qed

lemma gridDemo_fields:
  "canvas gridDemo = Some \<lparr>hasContext = True, offsetWidth = 270, offsetHeight = 270\<rparr>"
  "template gridDemo = \<lparr>rows = 2, cols = 2, style = Some ''grid''\<rparr>"
  "outputW gridDemo = 1080" "outputH gridDemo = 1080" "filterId gridDemo = ''none''"
  "images gridDemo = [''A'', ''B'', ''C'']" "selectedImageIndex gridDemo = None"
  "imageTransforms gridDemo = [transformA, defaultTransform, transformC]"
  by (simp_all add: gridDemo_def)

lemma gridDemo_loads:
  "loadImages loadAllButB gridDemo = [''A'', ''C'']" "loadImages loadNone gridDemo = []"
  by (simp_all add: loadImages_def gridDemo_fields map_filter_def loadAllButB_def loadNone_def)

theorem watermark_iff_image_loaded_witness:
  "canvas gridDemo = Some \<lparr>hasContext = True, offsetWidth = 270, offsetHeight = 270\<rparr> \<and>
   hasContext \<lparr>hasContext = True, offsetWidth = 270, offsetHeight = 270\<rparr> \<and>
   imageTransforms gridDemo \<noteq> [] \<and>
   filter isWatermark (drawCollage loadAllButB fixedRandom gridDemo) = [Watermark 1058.4 1069.2] \<and>
   length (filter isImage (drawCollage loadAllButB fixedRandom gridDemo)) = 2 \<and>
   length (filter isPlaceholder (drawCollage loadAllButB fixedRandom gridDemo)) = 2 \<and>
   filter isWatermark (drawCollage loadNone fixedRandom gridDemo) = [] \<and>
   filter isImage (drawCollage loadNone fixedRandom gridDemo) = [] \<and>
   length (filter isPlaceholder (drawCollage loadNone fixedRandom gridDemo)) = 4"
proof -
  let ?c = "\<lparr>hasContext = True, offsetWidth = 270, offsetHeight = 270\<rparr>"
  have c: "canvas gridDemo = Some ?c" "hasContext ?c"
    by (simp_all add: gridDemo_fields)
  note a = watermark_iff_image_loaded [OF c, of loadAllButB fixedRandom]
  note b = watermark_iff_image_loaded [OF c, of loadNone fixedRandom]
  have ts: "imageTransforms gridDemo \<noteq> []" by (simp add: gridDemo_fields)
  from a have a1: "filter isWatermark (drawCollage loadAllButB fixedRandom gridDemo) =
      [Watermark 1058.4 1069.2]"
    by (simp add: gridDemo_loads gridDemo_fields padding_def)
  from a have a2: "length (filter isImage (drawCollage loadAllButB fixedRandom gridDemo)) = 2"
    by (simp add: gridDemo_loads gridDemo_fields)
  from a have "length (filter isImage (drawCollage loadAllButB fixedRandom gridDemo)) +
      length (filter isPlaceholder (drawCollage loadAllButB fixedRandom gridDemo)) = 4"
    by (simp add: gridDemo_fields)
  with a2 have a3: "length (filter isPlaceholder (drawCollage loadAllButB fixedRandom gridDemo)) = 2"
    by simp
  from b have b1: "filter isWatermark (drawCollage loadNone fixedRandom gridDemo) = []"
    by (simp add: gridDemo_loads)
  from b have b2: "length (filter isImage (drawCollage loadNone fixedRandom gridDemo)) = 0"
    by (simp add: gridDemo_loads)
  from b have "length (filter isImage (drawCollage loadNone fixedRandom gridDemo)) +
      length (filter isPlaceholder (drawCollage loadNone fixedRandom gridDemo)) = 4"
    by (simp add: gridDemo_fields)
  with b2 have b3: "length (filter isPlaceholder (drawCollage loadNone fixedRandom gridDemo)) = 4"
    by simp
  show ?thesis using c ts a1 a2 a3 b1 b2 b3 by simp
qed

text \<open>
  A failed load leaves no gap in the list of loaded images: the images after it move up by
  one cell and the placeholder appears in the last cell. Here the source \<open>B\<close> fails; the
  second cell shows \<open>C\<close> with the transform that is stored for \<open>B\<close>.
\<close>

lemma failed_load_shifts_later_images:
  "drawCollage loadAllButB fixedRandom gridDemo =
     [Background,
      StyledImage ''A'' (cellOf gridDemo 0 0) ''grid'' ''none'' transformA,
      StyledImage ''C'' (cellOf gridDemo 0 1) ''grid'' ''none'' defaultTransform,
      Placeholder 3 (cellOf gridDemo 1 0), Placeholder 4 (cellOf gridDemo 1 1),
      Watermark 1058.4 1069.2]"
  by (simp add: drawCollage_ready [OF gridDemo_fields(1)] gridDemo_loads)
    (simp add: gridDemo_fields gridDemo_cells drawCell_def cellOf_def padding_def styleOrGrid_def)

text \<open>
  The cell that a render shows as a placeholder after a failed load still resolves to an
  image when its index is below the number of images. With the source \<open>B\<close> failing, the
  render of the three images shows the placeholder in cell \<open>(1, 0)\<close>; the centre of that cell
  resolves to the index 2 and a pointer-down there starts a drag.
\<close>

lemma hit_on_placeholder_after_failed_load:
  "drawCollage loadAllButB fixedRandom gridDemo ! 3 = Placeholder 3 (cellOf gridDemo 1 0) \<and>
   getImageIndexAtPosition gridDemo 69.525 200.475 = 2 \<and>
   dragState (handleCanvasDragStart 79.525 220.475 gridDemo) =
     Some \<lparr>isDragging = True, imageIndex = 2, startX = 79.525, startY = 220.475,
           initialTransform = transformC\<rparr>"
proof -
  have h: "getImageIndexAtPosition gridDemo 69.525 200.475 = 2"
    by (simp add: getImageIndexAtPosition_def gridDemo_def canvasCoord_def gridDemo_cells
        inCell_def cellRect_def gridDemo_geometry gap_def)
  have "getImageIndexAtPosition gridDemo (79.525 - 10) (220.475 - 20) = 2"
    using h by simp
  then have d: "dragState (handleCanvasDragStart 79.525 220.475 gridDemo) =
     Some \<lparr>isDragging = True, imageIndex = 2, startX = 79.525, startY = 220.475,
           initialTransform = transformC\<rparr>"
    by (simp add: handleCanvasDragStart_def Let_def) (simp add: gridDemo_def)
  show ?thesis
    using h d by (simp add: failed_load_shifts_later_images)
qed

end
